theory Spec2Isabelle
  imports Complex_Main
begin

section \<open>JavaScript values shared by the modules\<close>

text \<open>
  A value raised by \<^verbatim>\<open>throw\<close>. The handlers of the repository look at four things of
  a caught value: whether it is an \<^verbatim>\<open>Error\<close> instance, its \<^verbatim>\<open>message\<close>, what
  \<^verbatim>\<open>String(error)\<close> gives and a numeric \<^verbatim>\<open>status\<close> property.
\<close>

record thrown =
  isError :: bool
  message :: string
  asString :: string
  status :: "int option"

text \<open>\<^verbatim>\<open>error instanceof Error ? error.message : String(error)\<close>\<close>

definition errorText :: "thrown \<Rightarrow> string" where
  "errorText e = (if isError e then message e else asString e)"

text \<open>\<^verbatim>\<open>new Error(msg)\<close>: an Error instance without a status property.\<close>

definition newError :: "string \<Rightarrow> thrown" where
  "newError msg = \<lparr>isError = True, message = msg, asString = ''Error: '' @ msg, status = None\<rparr>"

text \<open>\<^verbatim>\<open>s.split(c)\<close> for a one-character separator: never the empty list.\<close>

fun split_chr :: "char \<Rightarrow> string \<Rightarrow> string list" where
  "split_chr c [] = [[]]"
| "split_chr c (x # xs) =
     (if x = c then [] # split_chr c xs
      else (case split_chr c xs of [] \<Rightarrow> [[x]] | w # ws \<Rightarrow> (x # w) # ws))"

text \<open>\<^verbatim>\<open>Math.ceil(text.length / 4)\<close>\<close>

definition estimateTokens :: "string \<Rightarrow> int" where
  "estimateTokens text = (int (length text) + 3) div 4"

text \<open>
  A table written as an object literal inherits from \<^verbatim>\<open>Object.prototype\<close>, so
  \<^verbatim>\<open>table[key]\<close> is not \<^verbatim>\<open>undefined\<close> at the names of that prototype's members:
  eleven functions and the accessor \<^verbatim>\<open>__proto__\<close>, which reads as the prototype
  object. \<open>Own\<close> is a value the literal lists, \<open>Inherited\<close> a member of the prototype
  (truthy, and without the properties of the listed values), \<open>Undefined\<close> anything else.
\<close>

definition objectPrototypeKeys :: "string list" where
  "objectPrototypeKeys =
     [''constructor'', ''__defineGetter__'', ''__defineSetter__'', ''hasOwnProperty'',
      ''__lookupGetter__'', ''__lookupSetter__'', ''isPrototypeOf'', ''propertyIsEnumerable'',
      ''toString'', ''valueOf'', ''__proto__'', ''toLocaleString'']"

datatype 'a JsLookup = Own 'a | Inherited | Undefined

definition lookupLiteral :: "(string \<times> 'a) list \<Rightarrow> string \<Rightarrow> 'a JsLookup" where
  "lookupLiteral rows key =
     (case map_of rows key of
        Some v \<Rightarrow> Own v
      | None \<Rightarrow> if key \<in> set objectPrototypeKeys then Inherited else Undefined)"

section \<open>ast-parser.ts: symbol extraction by line patterns\<close>

text \<open>
  Source texts are modelled as ASCII strings. \<open>isSpace\<close> is the ASCII part of what
  \<^verbatim>\<open>\s\<close> and \<^verbatim>\<open>trimStart\<close> treat as white space, \<open>isWord\<close> is \<^verbatim>\<open>\w\<close>.
\<close>

definition isSpace :: "char \<Rightarrow> bool" where
  "isSpace c = (c \<in> set [CHR '' '', CHR 0x09, CHR 0x0A, CHR 0x0B, CHR 0x0C, CHR 0x0D])"

definition isWord :: "char \<Rightarrow> bool" where
  "isWord c =
     (c \<in> set (''abcdefghijklmnopqrstuvwxyz'' @ ''ABCDEFGHIJKLMNOPQRSTUVWXYZ''
               @ ''0123456789'' @ ''_''))"

definition trimStart :: "string \<Rightarrow> string" where
  "trimStart s = dropWhile isSpace s"

definition trim :: "string \<Rightarrow> string" where
  "trim s = rev (dropWhile isSpace (rev (dropWhile isSpace s)))"

text \<open>
  The regular expressions of the module, as syntax trees. Every pattern starts with
  \<^verbatim>\<open>^\<close> and has no flags, so \<^verbatim>\<open>s.match(re)\<close> matches at the start of \<open>s\<close> or
  not at all. \<open>Plus\<close> and \<open>Star\<close> repeat a character class (\<^verbatim>\<open>\w+\<close>, \<^verbatim>\<open>\s*\<close>),
  \<open>Opt\<close> is \<^verbatim>\<open>(?:r)?\<close>, \<open>Group\<close> is a capturing group.
\<close>

datatype CharClass = WordClass | SpaceClass

datatype Regex =
  Str string
  | Plus CharClass
  | Star CharClass
  | Opt Regex
  | Alt Regex Regex
  | Seq Regex Regex
  | Group Regex

fun inClass :: "CharClass \<Rightarrow> char \<Rightarrow> bool" where
  "inClass WordClass c = isWord c"
| "inClass SpaceClass c = isSpace c"

text \<open>
  All the ways a pattern matches a prefix of the input, in the order a backtracking
  matcher tries them (repetitions and options are greedy): the captured texts and the
  rest of the input.
\<close>

fun matches :: "Regex \<Rightarrow> string \<Rightarrow> (string list \<times> string) list" where
  "matches (Str t) s = (if take (length t) s = t then [([], drop (length t) s)] else [])"
| "matches (Plus c) s =
     map (\<lambda>k. ([], drop k s)) (rev [1..<length (takeWhile (inClass c) s) + 1])"
| "matches (Star c) s =
     map (\<lambda>k. ([], drop k s)) (rev [0..<length (takeWhile (inClass c) s) + 1])"
| "matches (Opt r) s = matches r s @ [([], s)]"
| "matches (Alt a b) s = matches a s @ matches b s"
| "matches (Seq a b) s =
     concat (map (\<lambda>(c1, rest). map (\<lambda>(c2, rest'). (c1 @ c2, rest')) (matches b rest))
       (matches a s))"
| "matches (Group r) s =
     map (\<lambda>(c, rest). (take (length s - length rest) s # c, rest)) (matches r s)"

text \<open>\<^verbatim>\<open>s.match(re)\<close>: the captures of the first match, or \<^verbatim>\<open>null\<close>.\<close>

definition match :: "string \<Rightarrow> Regex \<Rightarrow> string list option" where
  "match s re = (case matches re s of [] \<Rightarrow> None | (captures, rest) # others \<Rightarrow> Some captures)"

definition seqs :: "Regex list \<Rightarrow> Regex" where
  "seqs rs = foldr Seq rs (Str [])"

datatype SymbolKind =
  FunctionKind | ClassKind | InterfaceKind | TypeKind | VariableKind | ResourceKind
  | BlockKind | ImportKind | ExportKind | MethodKind

record CodeSymbol =
  name :: string
  kind :: SymbolKind
  startLine :: int
  endLine :: int
  indent :: nat
  signature :: string

text \<open>The inner loop of \<^verbatim>\<open>findBlockEnd\<close>: \<open>None\<close> is the \<^verbatim>\<open>return i\<close>.\<close>

fun scanChars :: "char \<Rightarrow> char \<Rightarrow> string \<Rightarrow> int \<Rightarrow> bool \<Rightarrow> (int \<times> bool) option" where
  "scanChars opn cls [] depth found = Some (depth, found)"
| "scanChars opn cls (ch # rest) depth found =
     (if ch = opn then scanChars opn cls rest (depth + 1) True
      else if ch = cls then
        (if depth - 1 = 0 \<and> found then None else scanChars opn cls rest (depth - 1) found)
      else scanChars opn cls rest depth found)"

fun scanLines :: "char \<Rightarrow> char \<Rightarrow> string list \<Rightarrow> nat \<Rightarrow> int \<Rightarrow> bool \<Rightarrow> nat option" where
  "scanLines opn cls [] i depth found = None"
| "scanLines opn cls (l # ls) i depth found =
     (case scanChars opn cls l depth found of
        None \<Rightarrow> Some i
      | Some (depth', found') \<Rightarrow> scanLines opn cls ls (i + 1) depth' found')"

definition findBlockEnd :: "string list \<Rightarrow> nat \<Rightarrow> char \<Rightarrow> char \<Rightarrow> int" where
  "findBlockEnd lines startIdx opn cls =
     (case scanLines opn cls (drop startIdx lines) startIdx 0 False of
        Some i \<Rightarrow> int i
      | None \<Rightarrow> min (int startIdx + 50) (int (length lines) - 1))"

text \<open>\<^verbatim>\<open>deduplicateSymbols\<close>: a stable sort on the start line, then the filter loop.\<close>

fun dedupLoop :: "CodeSymbol list \<Rightarrow> int \<Rightarrow> CodeSymbol list" where
  "dedupLoop [] lastEnd = []"
| "dedupLoop (symb # rest) lastEnd =
     (if startLine symb > lastEnd \<or> kind symb = MethodKind
      then symb # dedupLoop rest (if endLine symb > lastEnd then endLine symb else lastEnd)
      else dedupLoop rest lastEnd)"

definition deduplicateSymbols :: "CodeSymbol list \<Rightarrow> CodeSymbol list" where
  "deduplicateSymbols symbols = dedupLoop (sort_key startLine symbols) (- 1)"

definition exportOpt :: Regex where
  "exportOpt = Opt (Seq (Str ''export'') (Plus SpaceClass))"

definition asyncOpt :: Regex where
  "asyncOpt = Opt (Seq (Str ''async'') (Plus SpaceClass))"

definition declKeyword :: Regex where
  "declKeyword = Alt (Str ''const'') (Alt (Str ''let'') (Str ''var''))"

text \<open>The seven patterns of \<^verbatim>\<open>extractTSSymbols\<close>, in the order of the source.\<close>

definition tsPatterns :: "(Regex \<times> SymbolKind) list" where
  "tsPatterns =
     [(seqs [exportOpt, asyncOpt, Str ''function'', Plus SpaceClass, Group (Plus WordClass)],
       FunctionKind),
      (seqs [exportOpt, declKeyword, Plus SpaceClass, Group (Plus WordClass), Star SpaceClass,
             Str ''='', Star SpaceClass, asyncOpt, Alt (Str ''('') (Str ''function'')],
       FunctionKind),
      (seqs [exportOpt, Str ''class'', Plus SpaceClass, Group (Plus WordClass)], ClassKind),
      (seqs [exportOpt, Str ''interface'', Plus SpaceClass, Group (Plus WordClass)],
       InterfaceKind),
      (seqs [exportOpt, Str ''type'', Plus SpaceClass, Group (Plus WordClass)], TypeKind),
      (seqs [exportOpt, declKeyword, Plus SpaceClass, Group (Plus WordClass), Star SpaceClass,
             Opt (seqs [Str '':'', Star SpaceClass, Plus WordClass]), Star SpaceClass,
             Str ''=''],
       VariableKind),
      (seqs [Plus SpaceClass, asyncOpt, Group (Plus WordClass), Star SpaceClass, Str ''(''],
       MethodKind)]"

text \<open>The inner \<^verbatim>\<open>for (const { regex, kind } of patterns)\<close> with its \<^verbatim>\<open>break\<close>.\<close>

fun firstPattern :: "(Regex \<times> SymbolKind) list \<Rightarrow> string \<Rightarrow> (string \<times> SymbolKind) option" where
  "firstPattern [] trimmed = None"
| "firstPattern ((regex, k) # rest) trimmed =
     (case match trimmed regex of
        Some (n # groups) \<Rightarrow> Some (n, k)
      | _ \<Rightarrow> firstPattern rest trimmed)"

text \<open>
  The body of the \<^verbatim>\<open>for (let i = 0; i < lines.length; i++)\<close> loop of an extractor
  gives at most one symbol for line \<open>i\<close>; the loop collects them in line order.
\<close>

definition eachLine :: "(string list \<Rightarrow> nat \<Rightarrow> CodeSymbol option) \<Rightarrow> string \<Rightarrow> CodeSymbol list"
  where
  "eachLine body content =
     (let lines = split_chr (CHR 0x0A) content
      in List.map_filter (body lines) [0..<length lines])"

definition tsLine :: "string list \<Rightarrow> nat \<Rightarrow> CodeSymbol option" where
  "tsLine lines i =
     (let line = lines ! i;
          trimmed = trimStart line;
          ind = length line - length trimmed
      in case firstPattern tsPatterns trimmed of
           None \<Rightarrow> None
         | Some (n, k) \<Rightarrow>
             Some \<lparr>name = n, kind = k, startLine = int i + 1,
                   endLine = findBlockEnd lines i (CHR ''{'') (CHR ''}'') + 1,
                   indent = ind,
                   signature = trim (hd (split_chr (CHR ''{'') trimmed))\<rparr>)"

definition extractTSSymbols :: "string \<Rightarrow> CodeSymbol list" where
  "extractTSSymbols content = deduplicateSymbols (eachLine tsLine content)"

text \<open>\<^verbatim>\<open>findPythonBlockEnd\<close>: the line before the first non-blank line that is not deeper.\<close>

fun pythonScan :: "string list \<Rightarrow> nat \<Rightarrow> nat \<Rightarrow> nat option" where
  "pythonScan [] i baseIndent = None"
| "pythonScan (line # rest) i baseIndent =
     (if trim line = '''' then pythonScan rest (i + 1) baseIndent
      else if length line - length (trimStart line) \<le> baseIndent then Some i
      else pythonScan rest (i + 1) baseIndent)"

definition findPythonBlockEnd :: "string list \<Rightarrow> nat \<Rightarrow> nat \<Rightarrow> int" where
  "findPythonBlockEnd lines startIdx baseIndent =
     (case pythonScan (drop (startIdx + 1) lines) (startIdx + 1) baseIndent of
        Some i \<Rightarrow> int i - 1
      | None \<Rightarrow> int (length lines) - 1)"

definition pythonLine :: "string list \<Rightarrow> nat \<Rightarrow> CodeSymbol option" where
  "pythonLine lines i =
     (let line = lines ! i;
          trimmed = trimStart line;
          ind = length line - length trimmed;
          found = (\<lambda>n k.
            Some \<lparr>name = n, kind = k, startLine = int i + 1,
                  endLine = findPythonBlockEnd lines i ind + 1, indent = ind,
                  signature = trim (hd (split_chr (CHR '':'') trimmed))\<rparr>)
      in case match trimmed
                (seqs [asyncOpt, Str ''def'', Plus SpaceClass, Group (Plus WordClass),
                       Star SpaceClass, Str ''('']) of
           Some (n # groups) \<Rightarrow> found n FunctionKind
         | _ \<Rightarrow>
             (case match trimmed (seqs [Str ''class'', Plus SpaceClass, Group (Plus WordClass)]) of
                Some (n # groups) \<Rightarrow> found n ClassKind
              | _ \<Rightarrow> None))"

text \<open>
  The extractors for HCL, Go and Rust and the generic one share the shape of the symbol
  they push: indent 0, the block end by braces, the signature up to the first brace.
\<close>

definition braceSymbol :: "string list \<Rightarrow> nat \<Rightarrow> string \<Rightarrow> string \<Rightarrow> SymbolKind \<Rightarrow> CodeSymbol" where
  "braceSymbol lines i trimmed n k =
     \<lparr>name = n, kind = k, startLine = int i + 1,
      endLine = findBlockEnd lines i (CHR ''{'') (CHR ''}'') + 1, indent = 0,
      signature = trim (hd (split_chr (CHR ''{'') trimmed))\<rparr>"

definition quoteOpt :: Regex where
  "quoteOpt = Opt (Str [CHR 0x22])"

definition terraformLine :: "string list \<Rightarrow> nat \<Rightarrow> CodeSymbol option" where
  "terraformLine lines i =
     (let trimmed = trimStart (lines ! i)
      in case match trimmed
                (seqs [Str ''resource'', Plus SpaceClass,
                       Str [CHR 0x22], Group (Plus WordClass), Str [CHR 0x22], Plus SpaceClass,
                       Str [CHR 0x22], Group (Plus WordClass), Str [CHR 0x22]]) of
           Some (a # b # groups) \<Rightarrow>
             Some (braceSymbol lines i trimmed (a @ ''.'' @ b) ResourceKind)
         | _ \<Rightarrow>
             (case match trimmed
                     (seqs [Group (Alt (Str ''variable'') (Alt (Str ''output'') (Alt (Str ''data'')
                              (Alt (Str ''locals'') (Alt (Str ''module'') (Str ''provider'')))))),
                            Plus SpaceClass, quoteOpt, Group (Plus WordClass), quoteOpt]) of
                Some (a # b # groups) \<Rightarrow>
                  Some (braceSymbol lines i trimmed (a @ ''.'' @ b) BlockKind)
              | _ \<Rightarrow> None))"

definition goLine :: "string list \<Rightarrow> nat \<Rightarrow> CodeSymbol option" where
  "goLine lines i =
     (let trimmed = trimStart (lines ! i)
      in case match trimmed
                (seqs [Str ''func'', Plus SpaceClass,
                       Opt (seqs [Str ''('', Plus WordClass, Plus SpaceClass, Opt (Str ''*''),
                                  Plus WordClass, Str '')'', Plus SpaceClass]),
                       Group (Plus WordClass), Star SpaceClass, Str ''('']) of
           Some (n # groups) \<Rightarrow> Some (braceSymbol lines i trimmed n FunctionKind)
         | _ \<Rightarrow>
             (case match trimmed
                     (seqs [Str ''type'', Plus SpaceClass, Group (Plus WordClass),
                            Plus SpaceClass, Str ''struct'']) of
                Some (n # groups) \<Rightarrow> Some (braceSymbol lines i trimmed n ClassKind)
              | _ \<Rightarrow> None))"

definition pubOpt :: Regex where
  "pubOpt = Opt (Seq (Str ''pub'') (Plus SpaceClass))"

definition rustLine :: "string list \<Rightarrow> nat \<Rightarrow> CodeSymbol option" where
  "rustLine lines i =
     (let trimmed = trimStart (lines ! i)
      in case match trimmed
                (seqs [pubOpt, asyncOpt, Str ''fn'', Plus SpaceClass, Group (Plus WordClass)]) of
           Some (n # groups) \<Rightarrow> Some (braceSymbol lines i trimmed n FunctionKind)
         | _ \<Rightarrow>
             (case match trimmed
                     (seqs [pubOpt, Str ''struct'', Plus SpaceClass, Group (Plus WordClass)]) of
                Some (n # groups) \<Rightarrow> Some (braceSymbol lines i trimmed n ClassKind)
              | _ \<Rightarrow> None))"

text \<open>The generic signature is cut at the first brace or colon: \<^verbatim>\<open>split(/[{:]/)[0]\<close>.\<close>

definition genericLine :: "string list \<Rightarrow> nat \<Rightarrow> CodeSymbol option" where
  "genericLine lines i =
     (let trimmed = trimStart (lines ! i)
      in case match trimmed
                (seqs [Alt (Str ''function'') (Alt (Str ''def'') (Alt (Str ''fn'')
                         (Alt (Str ''func'') (Alt (Str ''class'') (Alt (Str ''struct'')
                         (Alt (Str ''interface'') (Alt (Str ''type'') (Str ''resource'')))))))),
                       Plus SpaceClass, Group (Plus WordClass)]) of
           Some (n # groups) \<Rightarrow>
             Some ((braceSymbol lines i trimmed n FunctionKind)
                     \<lparr>signature :=
                        trim (takeWhile (\<lambda>c. c \<noteq> CHR ''{'' \<and> c \<noteq> CHR '':'') trimmed)\<rparr>)
         | _ \<Rightarrow> None)"

text \<open>\<^verbatim>\<open>extractSymbols\<close>: the \<^verbatim>\<open>switch\<close> on the language id.\<close>

definition extractSymbols :: "string \<Rightarrow> string \<Rightarrow> CodeSymbol list" where
  "extractSymbols content lang =
     (if lang = ''typescript'' \<or> lang = ''javascript'' then extractTSSymbols content
      else if lang = ''python'' then eachLine pythonLine content
      else if lang = ''hcl'' then eachLine terraformLine content
      else if lang = ''go'' then eachLine goLine content
      else if lang = ''rust'' then eachLine rustLine content
      else eachLine genericLine content)"

section \<open>diff-engine.ts: the wrappers around the diff package\<close>

text \<open>
  \<^verbatim>\<open>Diff.applyPatch\<close> belongs to the npm package \<^verbatim>\<open>diff\<close>, which is not part of the
  repository. It is a parameter of the model: given the content and the patch text it
  returns a string or \<^verbatim>\<open>false\<close>, or throws.
\<close>

datatype patch_outcome = Patched string | NotApplicable

type_synonym diff_package = "string \<Rightarrow> string \<Rightarrow> thrown + patch_outcome"

text \<open>
  \<^verbatim>\<open>Diff.createTwoFilesPatch(oldFileName, newFileName, oldStr, newStr, undefined,
  undefined, { context })\<close> of the same package, by the five arguments that vary.
\<close>

type_synonym patch_writer = "string \<Rightarrow> string \<Rightarrow> string \<Rightarrow> string \<Rightarrow> nat \<Rightarrow> string"

definition createUnifiedDiff ::
  "patch_writer \<Rightarrow> string \<Rightarrow> string \<Rightarrow> string \<Rightarrow> nat \<Rightarrow> string" where
  "createUnifiedDiff Diff_createTwoFilesPatch path oldContent newContent contextLines =
     Diff_createTwoFilesPatch (''a/'' @ path) (''b/'' @ path) oldContent newContent contextLines"

definition applyPatch :: "diff_package \<Rightarrow> string \<Rightarrow> string \<Rightarrow> thrown + string option" where
  "applyPatch Diff_applyPatch originalContent patchText =
     (case Diff_applyPatch originalContent patchText of
        Inl e \<Rightarrow> Inl e
      | Inr NotApplicable \<Rightarrow> Inr None
      | Inr (Patched result) \<Rightarrow> Inr (Some result))"

definition validatePatch :: "diff_package \<Rightarrow> string \<Rightarrow> string \<Rightarrow> thrown + bool" where
  "validatePatch Diff_applyPatch originalContent patchText =
     (case Diff_applyPatch originalContent patchText of
        Inl e \<Rightarrow> Inl e
      | Inr result \<Rightarrow> Inr (result \<noteq> NotApplicable))"

section \<open>redis-queue.ts: the token bucket and the waitlist\<close>

record Limits =
  rpm :: int
  tpm :: int

text \<open>\<^verbatim>\<open>PROVIDER_LIMITS[provider]\<close>, the table being an object literal.\<close>

definition PROVIDER_LIMITS :: "string \<Rightarrow> Limits JsLookup" where
  "PROVIDER_LIMITS = lookupLiteral
     [(''groq'', \<lparr>rpm = 30, tpm = 6000\<rparr>),
      (''bedrock'', \<lparr>rpm = 50, tpm = 200000\<rparr>),
      (''qwen'', \<lparr>rpm = 20, tpm = 40000\<rparr>),
      (''gemini'', \<lparr>rpm = 15, tpm = 1000000\<rparr>)]"

text \<open>
  The module state \<^verbatim>\<open>_redisAvailable\<close> and \<^verbatim>\<open>_redis\<close> (whether a client is
  cached).
\<close>

record Connection =
  redisAvailable :: bool
  redisClient :: bool

text \<open>
  \<^verbatim>\<open>getRedis\<close>, given \<^verbatim>\<open>process.env.REDIS_URL\<close> and whether loading the client and
  connecting succeeds. The result says whether a client is returned (\<open>False\<close> is
  \<^verbatim>\<open>null\<close>); \<^verbatim>\<open>!redisUrl\<close> holds for an unset and for an empty variable.
\<close>

definition getRedis :: "string option \<Rightarrow> bool \<Rightarrow> Connection \<Rightarrow> bool \<times> Connection" where
  "getRedis redisUrl connects c =
     (if \<not> redisAvailable c then (False, c)
      else if redisClient c then (True, c)
      else if redisUrl = None \<or> redisUrl = Some '''' then (False, c\<lparr>redisAvailable := False\<rparr>)
      else if connects then (True, c\<lparr>redisClient := True\<rparr>)
      else (False, c\<lparr>redisAvailable := False, redisClient := False\<rparr>))"

text \<open>
  The keys \<^verbatim>\<open>rate_limit:vriksha:<provider>:rpm:<minute>\<close> and
  \<^verbatim>\<open>rate_limit:vriksha:<provider>:tpm:<minute>\<close> by their parts; the list
  \<^verbatim>\<open>queue:vriksha:<provider>\<close> is indexed by the provider.
\<close>

datatype RedisKey = RpmKey string nat | TpmKey string nat

record RedisStore =
  counters :: "RedisKey \<rightharpoonup> int"
  expiry :: "RedisKey \<rightharpoonup> nat"
  queues :: "string \<Rightarrow> string list"

text \<open>The Redis commands the module issues.\<close>

definition rpush :: "string \<Rightarrow> string \<Rightarrow> RedisStore \<Rightarrow> nat \<times> RedisStore" where
  "rpush q v s =
     (length (queues s q) + 1, s\<lparr>queues := (queues s)(q := queues s q @ [v])\<rparr>)"

text \<open>\<^verbatim>\<open>parseInt((await redis.get(key)) || '0', 10)\<close> on an integer key.\<close>

definition getCount :: "RedisKey \<Rightarrow> RedisStore \<Rightarrow> int" where
  "getCount k s = (case counters s k of None \<Rightarrow> 0 | Some v \<Rightarrow> v)"

definition incrby :: "RedisKey \<Rightarrow> int \<Rightarrow> RedisStore \<Rightarrow> RedisStore" where
  "incrby k n s = s\<lparr>counters := (counters s)(k \<mapsto> getCount k s + n)\<rparr>"

definition incr :: "RedisKey \<Rightarrow> RedisStore \<Rightarrow> RedisStore" where
  "incr k s = incrby k 1 s"

definition expire :: "RedisKey \<Rightarrow> nat \<Rightarrow> RedisStore \<Rightarrow> RedisStore" where
  "expire k seconds s =
     (if counters s k = None then s else s\<lparr>expiry := (expiry s)(k \<mapsto> seconds)\<rparr>)"

text \<open>\<^verbatim>\<open>LREM key 1 value\<close>: the first occurrence from the head.\<close>

definition lrem :: "string \<Rightarrow> string \<Rightarrow> RedisStore \<Rightarrow> RedisStore" where
  "lrem q v s = s\<lparr>queues := (queues s)(q := remove1 v (queues s q))\<rparr>"

definition MAX_WAITS :: nat where
  "MAX_WAITS = 10"

text \<open>
  What the surroundings contribute to one pass of the loop: the two readings of
  \<^verbatim>\<open>Date.now()\<close> (milliseconds, at the top of the pass and when the delay is
  computed), what other clients did to the store since the previous pass, and whether a
  Redis command of the pass is rejected (modelled at the first command, \<^verbatim>\<open>rpush\<close>).
  The commands of one pass are taken to run without another client in between.
\<close>

record Pass =
  nowAtTop :: nat
  nowAtDelay :: nat
  otherClients :: "RedisStore \<Rightarrow> RedisStore"
  rejected :: "thrown option"

datatype PassResult = Claimed RedisStore | Waitlist nat nat RedisStore

text \<open>
  One pass of the \<^verbatim>\<open>for\<close> loop up to the callback. \<open>limits\<close> is the truthy value
  the table gave: a row, or \<open>None\<close> for an inherited member, whose \<^verbatim>\<open>rpm\<close> and
  \<^verbatim>\<open>tpm\<close> are \<^verbatim>\<open>undefined\<close>, so that both comparisons are false.
\<close>

definition onePass ::
  "string \<Rightarrow> Limits option \<Rightarrow> int \<Rightarrow> string \<Rightarrow> nat \<Rightarrow> nat \<Rightarrow> RedisStore \<Rightarrow> PassResult" where
  "onePass provider limits estimatedTokens requestId now1 now2 s =
     (let currentMinute = now1 div 60000;
          rpmKey = RpmKey provider currentMinute;
          tpmKey = TpmKey provider currentMinute;
          (position, s1) = rpush provider requestId s;
          currentRpm = getCount rpmKey s1;
          currentTpm = getCount tpmKey s1;
          hasRpm = (case limits of None \<Rightarrow> False | Some row \<Rightarrow> currentRpm < rpm row);
          hasTpm = (case limits of
              None \<Rightarrow> False
            | Some row \<Rightarrow> currentTpm + estimatedTokens \<le> tpm row);
          isFirst = (position = 1)
      in if hasRpm \<and> hasTpm \<and> isFirst
         then Claimed (lrem provider requestId (expire tpmKey 65 (expire rpmKey 65
                 (incrby tpmKey estimatedTokens (incr rpmKey s1)))))
         else Waitlist position (60000 - now2 mod 60000 + 100) (lrem provider requestId s1))"

datatype GateEffect = OnWaitlist nat nat | SetTimeout nat

datatype GateOutcome = Skipped | ClaimedAt nat | Exhausted | Raised thrown

function waitLoop ::
  "string \<Rightarrow> Limits option \<Rightarrow> int \<Rightarrow> string \<Rightarrow> (nat \<Rightarrow> Pass) \<Rightarrow> nat \<Rightarrow> RedisStore
   \<Rightarrow> GateEffect list \<times> GateOutcome \<times> RedisStore" where
  "waitLoop provider limits estimatedTokens requestId script waitCount s =
     (if waitCount < MAX_WAITS then
        (case rejected (script waitCount) of
           Some e \<Rightarrow> ([], Raised e, otherClients (script waitCount) s)
         | None \<Rightarrow>
             (case onePass provider limits estimatedTokens requestId
                     (nowAtTop (script waitCount)) (nowAtDelay (script waitCount))
                     (otherClients (script waitCount) s) of
                Claimed s' \<Rightarrow> ([], ClaimedAt waitCount, s')
              | Waitlist position msUntilNextMinute s' \<Rightarrow>
                  (case waitLoop provider limits estimatedTokens requestId script
                          (waitCount + 1) s' of
                     (later, outcome, final) \<Rightarrow>
                       (OnWaitlist position msUntilNextMinute # SetTimeout msUntilNextMinute
                          # later,
                        outcome, final))))
      else ([], Exhausted, s))"
  by pat_completeness auto
termination
  by (relation "measure (\<lambda>(provider, limits, estimatedTokens, requestId, script, waitCount, s).
        MAX_WAITS - waitCount)") auto

declare waitLoop.simps [simp del]

definition waitForCapacity ::
  "string option \<Rightarrow> bool \<Rightarrow> Connection \<Rightarrow> string \<Rightarrow> int \<Rightarrow> string \<Rightarrow> (nat \<Rightarrow> Pass)
   \<Rightarrow> RedisStore \<Rightarrow> (GateEffect list \<times> GateOutcome \<times> RedisStore) \<times> Connection" where
  "waitForCapacity redisUrl connects c provider estimatedTokens requestId script s =
     (case getRedis redisUrl connects c of
        (False, c') \<Rightarrow> (([], Skipped, s), c')
      | (True, c') \<Rightarrow>
          (case PROVIDER_LIMITS provider of
             Undefined \<Rightarrow> (([], Skipped, s), c')
           | Own limits \<Rightarrow>
               (waitLoop provider (Some limits) estimatedTokens requestId script 0 s, c')
           | Inherited \<Rightarrow>
               (waitLoop provider None estimatedTokens requestId script 0 s, c')))"

section \<open>utils.ts: the retry supervisor\<close>

datatype ApiProvider = Groq | Bedrock | Qwen | Gemini

fun providerKey :: "ApiProvider \<Rightarrow> string" where
  "providerKey Groq = ''groq''"
| "providerKey Bedrock = ''bedrock''"
| "providerKey Qwen = ''qwen''"
| "providerKey Gemini = ''gemini''"

text \<open>\<^verbatim>\<open>s.includes(t)\<close>: \<open>t\<close> occurs in \<open>s\<close> as a contiguous run.\<close>

fun includes_str :: "string \<Rightarrow> string \<Rightarrow> bool" where
  "includes_str [] t = (t = [])"
| "includes_str (x # xs) t = (take (length t) (x # xs) = t \<or> includes_str xs t)"

text \<open>
  \<^verbatim>\<open>msg.includes('429') || error?.status === 429\<close>, with \<open>msg\<close> the message of an
  \<^verbatim>\<open>Error\<close> and \<^verbatim>\<open>String(error)\<close> of any other value.
\<close>

definition isRateLimit :: "thrown \<Rightarrow> bool" where
  "isRateLimit e = (includes_str (errorText e) ''429'' \<or> status e = Some 429)"

text \<open>\<^verbatim>\<open>isRateLimit ? 10_000 : Math.pow(2, attempt) * 1_000\<close>, in milliseconds.\<close>

definition waitTime :: "int \<Rightarrow> thrown \<Rightarrow> int" where
  "waitTime attempt e = (if isRateLimit e then 10000 else 2 ^ nat attempt * 1000)"

text \<open>
  A value of the type \<^verbatim>\<open>number\<close> passed for \<^verbatim>\<open>maxRetries\<close>: a finite number, by
  its exact value, \<^verbatim>\<open>NaN\<close> or an infinity. The attempt counter itself is an integer
  and is kept exact.
\<close>

datatype JsNumber = Num rat | NaN | PosInfinity | NegInfinity

text \<open>\<^verbatim>\<open>attempt <= maxRetries\<close>\<close>

fun attemptLe :: "int \<Rightarrow> JsNumber \<Rightarrow> bool" where
  "attemptLe attempt (Num q) = (of_int attempt \<le> q)"
| "attemptLe attempt NaN = False"
| "attemptLe attempt PosInfinity = True"
| "attemptLe attempt NegInfinity = False"

text \<open>\<^verbatim>\<open>attempt === maxRetries\<close>\<close>

fun attemptIs :: "int \<Rightarrow> JsNumber \<Rightarrow> bool" where
  "attemptIs attempt (Num q) = (of_int attempt = q)"
| "attemptIs attempt NaN = False"
| "attemptIs attempt PosInfinity = False"
| "attemptIs attempt NegInfinity = False"

text \<open>
  The two status texts of \<^verbatim>\<open>withSmartRetries\<close>, by their interpolated values:
  \<open>Waitlisted position seconds\<close> and \<open>RetryingIn seconds nextAttempt maxRetries\<close>.
\<close>

datatype StatusText = Waitlisted int int | RetryingIn int int JsNumber

text \<open>
  What one call of \<^verbatim>\<open>withSmartRetries\<close> does to the outside, in order: a call of
  \<^verbatim>\<open>onStatus\<close>, a call of \<^verbatim>\<open>apiCall\<close>, a \<^verbatim>\<open>console.warn\<close> (attempt, wait,
  error) and a \<^verbatim>\<open>setTimeout\<close> sleep.
\<close>

datatype Effect =
  OnStatus StatusText
  | ApiCall
  | ConsoleWarn ApiProvider int int thrown
  | Timeout int

text \<open>
  The two awaited calls of an attempt are scripted by the attempt number: the
  \<^verbatim>\<open>(position, waitTimeMs)\<close> pairs \<^verbatim>\<open>waitForCapacity\<close> passes to its callback, the
  value it throws if it throws, and what \<^verbatim>\<open>apiCall\<close> returns or throws.
\<close>

record 'a Attempt =
  waitlisted :: "(int \<times> int) list"
  gateThrows :: "thrown option"
  apiResult :: "thrown + 'a"

text \<open>
  What the script of an attempt records of a run of \<^verbatim>\<open>waitForCapacity\<close> (the
  arguments its callback received and the value it raised, if any), beside the outcome
  of \<^verbatim>\<open>apiCall\<close>.
\<close>

definition attemptOf ::
  "GateEffect list \<times> GateOutcome \<times> RedisStore \<Rightarrow> thrown + 'a \<Rightarrow> 'a Attempt" where
  "attemptOf gate called =
     \<lparr>waitlisted = concat (map (\<lambda>x. case x of
          OnWaitlist position delay \<Rightarrow> [(int position, int delay)]
        | SetTimeout delay \<Rightarrow> []) (fst gate)),
      gateThrows = (case fst (snd gate) of Raised e \<Rightarrow> Some e | _ \<Rightarrow> None),
      apiResult = called\<rparr>"

datatype 'a RetryOutcome =
  Returned 'a
  | AttemptError thrown
  | RetriesExhausted ApiProvider JsNumber

text \<open>\<^verbatim>\<open>onStatus?.(text)\<close>: nothing happens when no callback was passed.\<close>

definition notify :: "bool \<Rightarrow> StatusText \<Rightarrow> Effect list" where
  "notify hasOnStatus text = (if hasOnStatus then [OnStatus text] else [])"

text \<open>The \<^verbatim>\<open>try\<close> block; \<^verbatim>\<open>Math.ceil(waitTimeMs / 1000)\<close> is \<open>- (- w div 1000)\<close>.\<close>

definition tryBlock :: "bool \<Rightarrow> 'a Attempt \<Rightarrow> Effect list \<times> (thrown + 'a)" where
  "tryBlock hasOnStatus att =
     (let gate = concat (map (\<lambda>(position, waitTimeMs).
                    notify hasOnStatus (Waitlisted position (- (- waitTimeMs div 1000))))
                  (waitlisted att))
      in case gateThrows att of
           Some e \<Rightarrow> (gate, Inl e)
         | None \<Rightarrow> (gate @ [ApiCall], apiResult att))"

text \<open>
  The \<^verbatim>\<open>catch\<close> block of an attempt that is not the last: the status text, the
  warning and the sleep, in this order.
\<close>

definition catchBlock ::
  "ApiProvider \<Rightarrow> bool \<Rightarrow> JsNumber \<Rightarrow> int \<Rightarrow> thrown \<Rightarrow> Effect list" where
  "catchBlock provider hasOnStatus maxRetries attempt e =
     notify hasOnStatus (RetryingIn (waitTime attempt e div 1000) (attempt + 1) maxRetries)
     @ [ConsoleWarn provider attempt (waitTime attempt e) e, Timeout (waitTime attempt e)]"

text \<open>
  The loop \<^verbatim>\<open>for (let attempt = 1; attempt <= maxRetries; attempt++)\<close> from a given
  attempt on. \<^verbatim>\<open>maxRetries\<close> is any number, so the loop need not come to an end
  (\<^verbatim>\<open>Infinity\<close> with attempts that all fail): a run that does not return is \<open>None\<close>.
\<close>

partial_function (option) retryLoop ::
  "ApiProvider \<Rightarrow> bool \<Rightarrow> (int \<Rightarrow> 'a Attempt) \<Rightarrow> JsNumber \<Rightarrow> int
   \<Rightarrow> (Effect list \<times> 'a RetryOutcome) option" where
  "retryLoop provider hasOnStatus script maxRetries attempt =
     (if attemptLe attempt maxRetries then
        (case tryBlock hasOnStatus (script attempt) of
           (effects, Inr v) \<Rightarrow> Some (effects, Returned v)
         | (effects, Inl e) \<Rightarrow>
             if attemptIs attempt maxRetries then Some (effects, AttemptError e)
             else
               Option.bind (retryLoop provider hasOnStatus script maxRetries (attempt + 1))
                 (\<lambda>(later, outcome).
                    Some (effects @ catchBlock provider hasOnStatus maxRetries attempt e @ later,
                          outcome)))
      else Some ([], RetriesExhausted provider maxRetries))"

declare retryLoop.simps [code]

text \<open>
  \<^verbatim>\<open>withSmartRetries(provider, estimatedTokens, apiCall, onStatus, maxRetries = 3)\<close>:
  \<open>hasOnStatus\<close> says whether a callback was passed, and \<open>None\<close> for \<open>maxRetries\<close> is
  an omitted argument, which the default replaces.
\<close>

definition withSmartRetries ::
  "ApiProvider \<Rightarrow> (int \<Rightarrow> 'a Attempt) \<Rightarrow> bool \<Rightarrow> JsNumber option
   \<Rightarrow> (Effect list \<times> 'a RetryOutcome) option" where
  "withSmartRetries provider script hasOnStatus maxRetries =
     retryLoop provider hasOnStatus script
       (case maxRetries of None \<Rightarrow> Num 3 | Some m \<Rightarrow> m) 1"

text \<open>A script in which \<^verbatim>\<open>waitForCapacity\<close> returns at once and every \<^verbatim>\<open>apiCall\<close> throws \<open>e\<close>.\<close>

definition alwaysThrows :: "thrown \<Rightarrow> int \<Rightarrow> unit Attempt" where
  "alwaysThrows e attempt = \<lparr>waitlisted = [], gateThrows = None, apiResult = Inl e\<rparr>"

section \<open>langgraph-types.ts: the pipeline state\<close>

datatype LangGraphNodeId =
  Ingestion | Planning | Retrieval | AstParsing | Editing | Reflection
  | Deployment | Responding | Idle | Error

datatype StepAction = Create | Edit | Delete | Search | Explain

record UnifiedDiff =
  filePath :: string
  originalContent :: string
  patchedContent :: string
  diff :: string
  targetSymbol :: "string option"
  lineRange :: "nat \<times> nat"

record PatchResult =
  pr_success :: bool
  pr_filePath :: string
  pr_error :: "string option"
  pr_syntaxValid :: "bool option"

text \<open>
  Wall-clock fields (\<^verbatim>\<open>lastModified\<close>, \<^verbatim>\<open>lastIndexed\<close>, \<^verbatim>\<open>lastUpdatedAt\<close>,
  \<^verbatim>\<open>createdAt\<close>) and generated ids hold readings of \<^verbatim>\<open>Date.now()\<close> and
  \<^verbatim>\<open>Math.random()\<close>; no branch of the code reads them, and the records leave them out.
\<close>

record CodeFile =
  path :: string
  content :: string
  language :: string

type_synonym CodeFiles = "string \<rightharpoonup> CodeFile"

record PlanStep =
  step_id :: string
  action :: StepAction
  step_file :: string
  symbol :: "string option"
  description :: string
  rationale :: "string option"
  completed :: bool
  step_diff :: "UnifiedDiff option"

record ExecutionPlan =
  goal :: string
  steps :: "PlanStep list"

text \<open>
  The user-facing texts of the node handlers carry emoji and interpolated values; each
  template of the source is one constructor, \<open>OtherMessage\<close> is a text produced by a
  handler that is a parameter of the model.
\<close>

datatype UserMessage =
  NoChangesToReview
  | ReviewFoundIssues
  | ReviewPassed int nat
  | GeneratedNewFile string
  | GeneratedEdit string
  | FoundRelevantFiles nat "string list"
  | NoMatchingFiles
  | DeploymentReady
  | OtherMessage string

datatype MessageRole = User | Assistant | System

datatype MessageContent =
  Plain string
  | Template UserMessage
  | ErrorNote string

record ConversationMessage =
  role :: MessageRole
  msg_content :: MessageContent
  msg_language :: string
  msg_node :: "LangGraphNodeId option"

record VrikshaState =
  currentNode :: LangGraphNodeId
  isProcessing :: bool
  error :: "string option"
  rawInput :: string
  transcribedText :: string
  translatedText :: string
  inputLanguage :: string
  messages :: "ConversationMessage list"
  files :: CodeFiles
  plan :: "ExecutionPlan option"
  currentStepIndex :: nat
  pendingDiffs :: "UnifiedDiff list"
  appliedPatches :: "PatchResult list"
  samjhaoMarkdown :: "string option"
  deploymentDocs :: "string option"
  wellArchitectedScore :: "int option"
  tokensUsed :: int
  estimatedCost :: rat

text \<open>
  \<^verbatim>\<open>Partial<VrikshaState>\<close>: \<open>None\<close> is an absent key. \<^verbatim>\<open>error\<close> and \<^verbatim>\<open>plan\<close> are
  optional in the state as well, so a present key may carry \<^verbatim>\<open>undefined\<close>.
\<close>

record StateUpdates =
  u_currentNode :: "LangGraphNodeId option"
  u_isProcessing :: "bool option"
  u_error :: "string option option"
  u_rawInput :: "string option"
  u_transcribedText :: "string option"
  u_translatedText :: "string option"
  u_inputLanguage :: "string option"
  u_messages :: "ConversationMessage list option"
  u_files :: "CodeFiles option"
  u_plan :: "ExecutionPlan option option"
  u_currentStepIndex :: "nat option"
  u_pendingDiffs :: "UnifiedDiff list option"
  u_appliedPatches :: "PatchResult list option"
  u_samjhaoMarkdown :: "string option"
  u_deploymentDocs :: "string option"
  u_wellArchitectedScore :: "int option"
  u_tokensUsed :: "int option"
  u_estimatedCost :: "rat option"

text \<open>The empty object \<^verbatim>\<open>{}\<close>.\<close>

definition noUpdates :: StateUpdates where
  "noUpdates = \<lparr>u_currentNode = None, u_isProcessing = None, u_error = None,
     u_rawInput = None, u_transcribedText = None, u_translatedText = None,
     u_inputLanguage = None, u_messages = None, u_files = None, u_plan = None,
     u_currentStepIndex = None, u_pendingDiffs = None, u_appliedPatches = None,
     u_samjhaoMarkdown = None, u_deploymentDocs = None, u_wellArchitectedScore = None,
     u_tokensUsed = None, u_estimatedCost = None\<rparr>"

record NodeExecutionResult =
  success :: bool
  nextNode :: LangGraphNodeId
  stateUpdates :: StateUpdates
  userMessage :: "UserMessage option"
  res_error :: "string option"

text \<open>\<^verbatim>\<open>{ ...state, ...updates }\<close>: every present key of \<open>updates\<close> replaces the field.\<close>

definition updateState :: "VrikshaState \<Rightarrow> StateUpdates \<Rightarrow> VrikshaState" where
  "updateState state updates =
     \<lparr>currentNode = (case u_currentNode updates of None \<Rightarrow> currentNode state | Some v \<Rightarrow> v),
      isProcessing = (case u_isProcessing updates of None \<Rightarrow> isProcessing state | Some v \<Rightarrow> v),
      error = (case u_error updates of None \<Rightarrow> error state | Some v \<Rightarrow> v),
      rawInput = (case u_rawInput updates of None \<Rightarrow> rawInput state | Some v \<Rightarrow> v),
      transcribedText =
        (case u_transcribedText updates of None \<Rightarrow> transcribedText state | Some v \<Rightarrow> v),
      translatedText =
        (case u_translatedText updates of None \<Rightarrow> translatedText state | Some v \<Rightarrow> v),
      inputLanguage =
        (case u_inputLanguage updates of None \<Rightarrow> inputLanguage state | Some v \<Rightarrow> v),
      messages = (case u_messages updates of None \<Rightarrow> messages state | Some v \<Rightarrow> v),
      files = (case u_files updates of None \<Rightarrow> files state | Some v \<Rightarrow> v),
      plan = (case u_plan updates of None \<Rightarrow> plan state | Some v \<Rightarrow> v),
      currentStepIndex =
        (case u_currentStepIndex updates of None \<Rightarrow> currentStepIndex state | Some v \<Rightarrow> v),
      pendingDiffs =
        (case u_pendingDiffs updates of None \<Rightarrow> pendingDiffs state | Some v \<Rightarrow> v),
      appliedPatches =
        (case u_appliedPatches updates of None \<Rightarrow> appliedPatches state | Some v \<Rightarrow> v),
      samjhaoMarkdown =
        (case u_samjhaoMarkdown updates of None \<Rightarrow> samjhaoMarkdown state | Some v \<Rightarrow> Some v),
      deploymentDocs =
        (case u_deploymentDocs updates of None \<Rightarrow> deploymentDocs state | Some v \<Rightarrow> Some v),
      wellArchitectedScore =
        (case u_wellArchitectedScore updates of
           None \<Rightarrow> wellArchitectedScore state | Some v \<Rightarrow> Some v),
      tokensUsed = (case u_tokensUsed updates of None \<Rightarrow> tokensUsed state | Some v \<Rightarrow> v),
      estimatedCost =
        (case u_estimatedCost updates of None \<Rightarrow> estimatedCost state | Some v \<Rightarrow> v)\<rparr>"

text \<open>\<^verbatim>\<open>(tokensUsed / 1000) * 0.0015\<close>, as an exact fraction.\<close>

definition estimateCost :: "int \<Rightarrow> rat" where
  "estimateCost tokens = (of_int tokens / 1000) * (15 / 10000)"

text \<open>\<^verbatim>\<open>createInitialState\<close>; the session and user ids are not modelled.\<close>

definition createInitialState :: VrikshaState where
  "createInitialState =
     \<lparr>currentNode = Idle, isProcessing = False, error = None, rawInput = '''',
      transcribedText = '''', translatedText = '''', inputLanguage = ''en'',
      messages = [], files = Map.empty, plan = None, currentStepIndex = 0,
      pendingDiffs = [], appliedPatches = [], samjhaoMarkdown = None,
      deploymentDocs = None, wellArchitectedScore = None, tokensUsed = 0,
      estimatedCost = 0\<rparr>"

section \<open>reflection-agent.ts: applying the pending diffs\<close>

definition getLanguageFromPath :: "string \<Rightarrow> string" where
  "getLanguageFromPath p =
     (let ext = last (split_chr (CHR ''.'') p) in
      case map_of
          [(''ts'', ''typescript''), (''tsx'', ''typescript''), (''js'', ''javascript''),
           (''tf'', ''hcl''), (''py'', ''python''), (''json'', ''json''),
           (''yaml'', ''yaml''), (''md'', ''markdown'')] ext of
        None \<Rightarrow> ''plaintext''
      | Some l \<Rightarrow> l)"

definition patchedFile :: "UnifiedDiff \<Rightarrow> CodeFile" where
  "patchedFile d =
     \<lparr>path = filePath d, content = patchedContent d,
      language = getLanguageFromPath (filePath d)\<rparr>"

definition patchApplied :: "UnifiedDiff \<Rightarrow> PatchResult" where
  "patchApplied d =
     \<lparr>pr_success = True, pr_filePath = filePath d, pr_error = None,
      pr_syntaxValid = Some True\<rparr>"

definition patchRejected :: "UnifiedDiff \<Rightarrow> PatchResult" where
  "patchRejected d =
     \<lparr>pr_success = False, pr_filePath = filePath d,
      pr_error = Some ''Patch validation failed'', pr_syntaxValid = Some False\<rparr>"

text \<open>
  The body of the \<^verbatim>\<open>for (const diff of state.pendingDiffs)\<close> loop, on the two
  accumulators \<^verbatim>\<open>updatedFiles\<close> and \<^verbatim>\<open>results\<close>. \<^verbatim>\<open>validatePatch\<close> is called
  before the test, so a value it throws leaves the loop.
\<close>

fun applyDiffsLoop ::
  "diff_package \<Rightarrow> UnifiedDiff list \<Rightarrow> CodeFiles \<Rightarrow> PatchResult list
   \<Rightarrow> thrown + (CodeFiles \<times> PatchResult list)" where
  "applyDiffsLoop lib [] updatedFiles results = Inr (updatedFiles, results)"
| "applyDiffsLoop lib (d # ds) updatedFiles results =
     (case validatePatch lib (originalContent d) (diff d) of
        Inl e \<Rightarrow> Inl e
      | Inr isValid \<Rightarrow>
          if isValid \<or> originalContent d = ''''
          then applyDiffsLoop lib ds (updatedFiles(filePath d \<mapsto> patchedFile d))
                 (results @ [patchApplied d])
          else applyDiffsLoop lib ds updatedFiles (results @ [patchRejected d]))"

definition applyPendingDiffs ::
  "diff_package \<Rightarrow> VrikshaState \<Rightarrow> thrown + (CodeFiles \<times> PatchResult list)" where
  "applyPendingDiffs lib state = applyDiffsLoop lib (pendingDiffs state) (files state) []"

section \<open>The node handlers\<close>

datatype Severity = SeverityError | SeverityWarning | SeverityInfo

record ReviewIssue =
  severity :: Severity
  issue_message :: string

record CodeReviewResult =
  valid :: bool
  issues :: "ReviewIssue list"
  reviewScore :: int

text \<open>
  The calls that leave the core: the diff package, the model calls behind
  \<^verbatim>\<open>reviewCode\<close>, \<^verbatim>\<open>generateSamjhao\<close>, \<^verbatim>\<open>generateDeploymentDocs\<close>,
  \<^verbatim>\<open>generateNewFile\<close> and \<^verbatim>\<open>generateCodeEdit\<close>, the search index, the translation
  service, and the ingestion and planning handlers (which consist of such calls). Each
  is a parameter; \<open>Inl\<close> is a rejected promise.
\<close>

record Collaborators =
  Diff_applyPatch :: diff_package
  Diff_createTwoFilesPatch :: patch_writer
  reviewCode :: "UnifiedDiff \<Rightarrow> thrown + CodeReviewResult"
  generateSamjhao :: "VrikshaState \<Rightarrow> thrown + string"
  generateDeploymentDocs :: "VrikshaState \<Rightarrow> thrown + string"
  generateNewFile :: "string \<Rightarrow> PlanStep \<Rightarrow> thrown + string"
  generateCodeEdit :: "string \<Rightarrow> string \<Rightarrow> PlanStep \<Rightarrow> string \<Rightarrow> thrown + UnifiedDiff"
  searchCodebase :: "string \<Rightarrow> CodeFiles \<Rightarrow> thrown + string list"
  translateChatMessage :: "UserMessage \<Rightarrow> string \<Rightarrow> thrown + string"
  executeIngestionNode :: "VrikshaState \<Rightarrow> NodeExecutionResult"
  executePlannerNode :: "VrikshaState \<Rightarrow> NodeExecutionResult"

text \<open>The \<^verbatim>\<open>catch\<close> block shared by the handlers.\<close>

definition failedNode :: "thrown \<Rightarrow> NodeExecutionResult" where
  "failedNode e =
     \<lparr>success = False, nextNode = Error,
      stateUpdates = noUpdates\<lparr>u_error := Some (Some (errorText e))\<rparr>,
      userMessage = None, res_error = Some (errorText e)\<rparr>"

text \<open>
  The diff of a file that does not exist yet:
  \<^verbatim>\<open>createUnifiedDiff(step.file, '', content)\<close> with the default of three context lines.
\<close>

definition newFileDiff :: "Collaborators \<Rightarrow> string \<Rightarrow> string \<Rightarrow> UnifiedDiff" where
  "newFileDiff co p newContent =
     \<lparr>filePath = p, originalContent = '''', patchedContent = newContent,
      diff = createUnifiedDiff (Diff_createTwoFilesPatch co) p '''' newContent 3,
      targetSymbol = None,
      lineRange = (1, length (split_chr (CHR 0x0A) newContent))\<rparr>"

text \<open>
  The branch on \<^verbatim>\<open>step.action\<close> of the editor: the diff, if one is produced, and the
  tokens spent.
\<close>

definition produceDiff ::
  "Collaborators \<Rightarrow> VrikshaState \<Rightarrow> PlanStep \<Rightarrow> thrown + (UnifiedDiff option \<times> int)" where
  "produceDiff co state step =
     (if action step = Edit then
        (case files state (step_file step) of
           Some f \<Rightarrow>
             (case generateCodeEdit co (step_file step) (content f) step (language f) of
                Inl e \<Rightarrow> Inl e
              | Inr d \<Rightarrow>
                  Inr (Some d, estimateTokens (content f) + estimateTokens (patchedContent d)))
         | None \<Rightarrow>
             (case generateNewFile co (step_file step) step of
                Inl e \<Rightarrow> Inl e
              | Inr newContent \<Rightarrow>
                  Inr (Some (newFileDiff co (step_file step) newContent),
                       estimateTokens newContent)))
      else if action step = Create then
        (case generateNewFile co (step_file step) step of
           Inl e \<Rightarrow> Inl e
         | Inr newContent \<Rightarrow>
             Inr (Some (newFileDiff co (step_file step) newContent), estimateTokens newContent))
      else Inr (None, 0))"

text \<open>\<^verbatim>\<open>plan.steps.map((s, i) => i === currentStepIndex ? f(s) : s)\<close>\<close>

definition mapAt :: "nat \<Rightarrow> ('a \<Rightarrow> 'a) \<Rightarrow> 'a list \<Rightarrow> 'a list" where
  "mapAt i f xs = map (\<lambda>(j, x). if j = i then f x else x) (zip [0..<length xs] xs)"

text \<open>The routing after a plan step, as the editor computes it.\<close>

definition nextAfterStep :: "ExecutionPlan \<Rightarrow> nat \<Rightarrow> LangGraphNodeId" where
  "nextAfterStep p nextStepIndex =
     (if nextStepIndex < length (steps p)
      then (if action (steps p ! nextStepIndex) = Search then Retrieval else Editing)
      else Reflection)"

definition executeCodeEditorNode :: "Collaborators \<Rightarrow> VrikshaState \<Rightarrow> NodeExecutionResult" where
  "executeCodeEditorNode co state =
     (case plan state of
        None \<Rightarrow>
          \<lparr>success = True, nextNode = Reflection, stateUpdates = noUpdates,
           userMessage = None, res_error = None\<rparr>
      | Some p \<Rightarrow>
          if currentStepIndex state \<ge> length (steps p) then
            \<lparr>success = True, nextNode = Reflection, stateUpdates = noUpdates,
             userMessage = None, res_error = None\<rparr>
          else
            (let step = steps p ! currentStepIndex state in
             case produceDiff co state step of
               Inl e \<Rightarrow> failedNode e
             | Inr (d, spent) \<Rightarrow>
                 \<lparr>success = True,
                  nextNode = nextAfterStep p (currentStepIndex state + 1),
                  stateUpdates = noUpdates
                    \<lparr>u_plan := Some (Some (p\<lparr>steps := mapAt (currentStepIndex state)
                         (\<lambda>s. s\<lparr>completed := True, step_diff := d\<rparr>) (steps p)\<rparr>)),
                     u_currentStepIndex := Some (currentStepIndex state + 1),
                     u_pendingDiffs := Some (case d of
                         None \<Rightarrow> pendingDiffs state
                       | Some d' \<Rightarrow> pendingDiffs state @ [d']),
                     u_tokensUsed := Some (tokensUsed state + spent)\<rparr>,
                  userMessage = (case d of
                      None \<Rightarrow> None
                    | Some d' \<Rightarrow>
                        Some (if action step = Create then GeneratedNewFile (step_file step)
                              else GeneratedEdit (step_file step))),
                  res_error = None\<rparr>))"

text \<open>\<^verbatim>\<open>parts.join(sep)\<close>\<close>

fun joinWith :: "string \<Rightarrow> string list \<Rightarrow> string" where
  "joinWith sep [] = []"
| "joinWith sep [x] = x"
| "joinWith sep (x # y # rest) = x @ sep @ joinWith sep (y # rest)"

text \<open>
  The review loop of the reflection handler: the reviews in order and the tokens
  counted so far; a rejected review leaves the loop.
\<close>

fun reviewAll ::
  "Collaborators \<Rightarrow> UnifiedDiff list \<Rightarrow> CodeReviewResult list \<Rightarrow> int
   \<Rightarrow> thrown + (CodeReviewResult list \<times> int)" where
  "reviewAll co [] reviews spent = Inr (reviews, spent)"
| "reviewAll co (d # ds) reviews spent =
     (case reviewCode co d of
        Inl e \<Rightarrow> Inl e
      | Inr review \<Rightarrow>
          reviewAll co ds (reviews @ [review]) (spent + (estimateTokens (diff d) + 500)))"

text \<open>
  \<^verbatim>\<open>Math.round(sum / reviews.length)\<close> on integer scores: the nearest integer, a
  half rounded up.
\<close>

definition averageScore :: "CodeReviewResult list \<Rightarrow> int" where
  "averageScore reviews =
     (2 * sum_list (map reviewScore reviews) + int (length reviews))
       div (2 * int (length reviews))"

definition reviewFailureText :: "CodeReviewResult list \<Rightarrow> string" where
  "reviewFailureText reviews =
     ''Code review failed:'' @ [CHR 0x0A]
     @ joinWith [CHR 0x0A]
         (map issue_message
            (concat (map (\<lambda>r. filter (\<lambda>i. severity i = SeverityError) (issues r))
               (filter (\<lambda>r. \<not> valid r) reviews))))"

text \<open>
  \<^verbatim>\<open>executeReflectionNode\<close>. Of the two documents awaited by \<^verbatim>\<open>Promise.all\<close>, the
  explanation is looked at first.
\<close>

definition executeReflectionNode :: "Collaborators \<Rightarrow> VrikshaState \<Rightarrow> NodeExecutionResult" where
  "executeReflectionNode co state =
     (if pendingDiffs state = [] then
        \<lparr>success = True, nextNode = Responding, stateUpdates = noUpdates,
         userMessage = Some NoChangesToReview, res_error = None\<rparr>
      else
        (case reviewAll co (pendingDiffs state) [] 0 of
           Inl e \<Rightarrow> failedNode e
         | Inr (reviews, spent) \<Rightarrow>
             if \<not> list_all valid reviews then
               \<lparr>success = False, nextNode = Editing,
                stateUpdates = noUpdates
                  \<lparr>u_error := Some (Some (reviewFailureText reviews)),
                   u_tokensUsed := Some (tokensUsed state + spent)\<rparr>,
                userMessage = Some ReviewFoundIssues, res_error = None\<rparr>
             else
               (case applyPendingDiffs (Diff_applyPatch co) state of
                  Inl e \<Rightarrow> failedNode e
                | Inr (codebase, results) \<Rightarrow>
                    (case generateSamjhao co state of
                       Inl e \<Rightarrow> failedNode e
                     | Inr samjhao \<Rightarrow>
                         (case generateDeploymentDocs co state of
                            Inl e \<Rightarrow> failedNode e
                          | Inr docs \<Rightarrow>
                              \<lparr>success = True, nextNode = Responding,
                               stateUpdates = noUpdates
                                 \<lparr>u_files := Some codebase,
                                  u_appliedPatches := Some results,
                                  u_pendingDiffs := Some [],
                                  u_samjhaoMarkdown := Some samjhao,
                                  u_deploymentDocs := Some docs,
                                  u_wellArchitectedScore := Some (averageScore reviews),
                                  u_tokensUsed := Some (tokensUsed state
                                    + (spent + (estimateTokens samjhao + estimateTokens docs)))\<rparr>,
                               userMessage =
                                 Some (ReviewPassed (averageScore reviews) (length results)),
                               res_error = None\<rparr>)))))"

section \<open>langgraph-orchestrator.ts: the drive loop\<close>

definition executeRetrievalNode :: "Collaborators \<Rightarrow> VrikshaState \<Rightarrow> NodeExecutionResult" where
  "executeRetrievalNode co state =
     (case plan state of
        None \<Rightarrow>
          \<lparr>success = True, nextNode = Planning, stateUpdates = noUpdates,
           userMessage = None, res_error = None\<rparr>
      | Some p \<Rightarrow>
          (let searchQuery =
                 (if currentStepIndex state < length (steps p)
                     \<and> description (steps p ! currentStepIndex state) \<noteq> ''''
                  then description (steps p ! currentStepIndex state)
                  else translatedText state)
           in case searchCodebase co searchQuery (files state) of
                Inl e \<Rightarrow> failedNode e
              | Inr relevantFiles \<Rightarrow>
                  \<lparr>success = True,
                   nextNode = nextAfterStep p (currentStepIndex state + 1),
                   stateUpdates = noUpdates
                     \<lparr>u_plan := Some (Some (p\<lparr>steps := mapAt (currentStepIndex state)
                          (\<lambda>s. s\<lparr>completed := True\<rparr>) (steps p)\<rparr>)),
                      u_currentStepIndex := Some (currentStepIndex state + 1)\<rparr>,
                   userMessage =
                     Some (if length relevantFiles > 0
                           then FoundRelevantFiles (length relevantFiles) (take 3 relevantFiles)
                           else NoMatchingFiles),
                   res_error = None\<rparr>))"

text \<open>The table \<^verbatim>\<open>nodeExecutors\<close>.\<close>

fun nodeExecutors :: "Collaborators \<Rightarrow> LangGraphNodeId \<Rightarrow> VrikshaState \<Rightarrow> NodeExecutionResult"
  where
  "nodeExecutors co Idle state =
     \<lparr>success = True, nextNode = Idle, stateUpdates = noUpdates,
      userMessage = None, res_error = None\<rparr>"
| "nodeExecutors co Ingestion state = executeIngestionNode co state"
| "nodeExecutors co Planning state = executePlannerNode co state"
| "nodeExecutors co Retrieval state = executeRetrievalNode co state"
| "nodeExecutors co AstParsing state =
     \<lparr>success = True, nextNode = Editing, stateUpdates = noUpdates,
      userMessage = None, res_error = None\<rparr>"
| "nodeExecutors co Editing state = executeCodeEditorNode co state"
| "nodeExecutors co Reflection state = executeReflectionNode co state"
| "nodeExecutors co Deployment state =
     \<lparr>success = True, nextNode = Responding, stateUpdates = noUpdates,
      userMessage = Some DeploymentReady, res_error = None\<rparr>"
| "nodeExecutors co Responding state =
     \<lparr>success = True, nextNode = Idle,
      stateUpdates = noUpdates\<lparr>u_isProcessing := Some False\<rparr>,
      userMessage = None, res_error = None\<rparr>"
| "nodeExecutors co Error state =
     \<lparr>success = False, nextNode = Idle, stateUpdates = noUpdates,
      userMessage = None, res_error = error state\<rparr>"

text \<open>\<^verbatim>\<open>addMessage(role, content, node)\<close>\<close>

definition addMessage ::
  "MessageRole \<Rightarrow> MessageContent \<Rightarrow> LangGraphNodeId option \<Rightarrow> VrikshaState \<Rightarrow> VrikshaState" where
  "addMessage r c n state =
     updateState state (noUpdates\<lparr>u_messages := Some (messages state
        @ [\<lparr>role = r, msg_content = c, msg_language = inputLanguage state, msg_node = n\<rparr>])\<rparr>)"

text \<open>
  The state update of the loop body:
  \<^verbatim>\<open>{ ...result.stateUpdates, currentNode: result.nextNode, estimatedCost: ... }\<close>.
\<close>

definition mergeResult :: "VrikshaState \<Rightarrow> NodeExecutionResult \<Rightarrow> VrikshaState" where
  "mergeResult state result =
     updateState state ((stateUpdates result)
       \<lparr>u_currentNode := Some (nextNode result),
        u_estimatedCost := Some (estimateCost (tokensUsed state
          + (case u_tokensUsed (stateUpdates result) of None \<Rightarrow> 0 | Some t \<Rightarrow> t)))\<rparr>)"

text \<open>\<^verbatim>\<open>if (result.userMessage)\<close>: an empty text counts as absent.\<close>

definition presentMessage :: "UserMessage option \<Rightarrow> UserMessage option" where
  "presentMessage m = (if m = Some (OtherMessage '''') then None else m)"

text \<open>
  The rest of the loop body after the state update: the assistant message, translated
  when the input language is not English, and the error note. A rejected translation
  leaves the loop with the state as it is then.
\<close>

definition announce ::
  "(UserMessage \<Rightarrow> string \<Rightarrow> thrown + string) \<Rightarrow> NodeExecutionResult \<Rightarrow> VrikshaState
   \<Rightarrow> (thrown \<times> VrikshaState) + VrikshaState"
  where
  "announce translate result state =
     (let noted = (\<lambda>s. if \<not> success result \<and> res_error result \<noteq> None
                          \<and> res_error result \<noteq> Some ''''
                       then addMessage System (ErrorNote (the (res_error result))) (Some Error) s
                       else s)
      in case presentMessage (userMessage result) of
           None \<Rightarrow> Inr (noted state)
         | Some m \<Rightarrow>
             if inputLanguage state \<noteq> ''en'' then
               (case translate m (inputLanguage state) of
                  Inl e \<Rightarrow> Inl (e, state)
                | Inr translated \<Rightarrow>
                    Inr (noted (addMessage Assistant (Plain translated)
                                  (Some (nextNode result)) state)))
             else Inr (noted (addMessage Assistant (Template m) (Some (nextNode result)) state)))"

definition maxIterations :: nat where
  "maxIterations = 20"

text \<open>
  The \<^verbatim>\<open>while\<close> loop of \<^verbatim>\<open>run\<close> over a translation service and a table of
  executors. \<open>aborted n\<close> says
  whether the abort signal is set when the loop condition is evaluated after \<open>n\<close>
  passes. The result is the number of passes, the state, and the value thrown if the
  loop was left by an exception (an executor may reject as well).
\<close>

function driveLoop ::
  "(UserMessage \<Rightarrow> string \<Rightarrow> thrown + string)
   \<Rightarrow> (LangGraphNodeId \<Rightarrow> VrikshaState \<Rightarrow> thrown + NodeExecutionResult)
   \<Rightarrow> (nat \<Rightarrow> bool) \<Rightarrow> nat \<Rightarrow> VrikshaState \<Rightarrow> nat \<times> VrikshaState \<times> thrown option" where
  "driveLoop translate executors aborted iteration state =
     (if currentNode state \<noteq> Idle \<and> currentNode state \<noteq> Error
         \<and> iteration < maxIterations \<and> \<not> aborted iteration
      then
        (case executors (currentNode state) state of
           Inl e \<Rightarrow> (iteration + 1, state, Some e)
         | Inr result \<Rightarrow>
             (case announce translate result (mergeResult state result) of
                Inl (e, state') \<Rightarrow> (iteration + 1, state', Some e)
              | Inr state' \<Rightarrow> driveLoop translate executors aborted (iteration + 1) state'))
      else (iteration, state, None))"
  by pat_completeness auto
termination
  by (relation "measure (\<lambda>(translate, executors, aborted, iteration, state).
        maxIterations - iteration)") auto

declare driveLoop.simps [simp del]





section \<open>Verified properties\<close>

subsection \<open>Patch validation against patch application\<close>

text \<open>
  C4. For every content and patch text, \<^verbatim>\<open>validatePatch\<close> returns true exactly when
  \<^verbatim>\<open>applyPatch\<close> returns a non-null result, whatever the diff package does on that
  input; it returns false exactly when \<^verbatim>\<open>applyPatch\<close> returns null, and it throws
  exactly the value \<^verbatim>\<open>applyPatch\<close> throws.
\<close>

theorem validatePatch_agrees_with_applyPatch:
  "(validatePatch lib original patchText = Inr True) =
     (\<exists>result. applyPatch lib original patchText = Inr (Some result))
   \<and> (validatePatch lib original patchText = Inr False) =
     (applyPatch lib original patchText = Inr None)
   \<and> (validatePatch lib original patchText = Inl e) =
     (applyPatch lib original patchText = Inl e)"
  by (simp add: validatePatch_def applyPatch_def split: sum.splits patch_outcome.splits)

subsection \<open>Applying a batch of pending diffs\<close>






subsection \<open>The admission controller\<close>

lemma onePass_claims:
  assumes "queues s provider = []"
    "getCount (RpmKey provider (now1 div 60000)) s < rpm limits"
    "getCount (TpmKey provider (now1 div 60000)) s + estimatedTokens \<le> tpm limits"
  shows "onePass provider (Some limits) estimatedTokens requestId now1 now2 s =
     Claimed (s\<lparr>counters := (counters s)
                 (RpmKey provider (now1 div 60000) \<mapsto>
                    getCount (RpmKey provider (now1 div 60000)) s + 1,
                  TpmKey provider (now1 div 60000) \<mapsto>
                    getCount (TpmKey provider (now1 div 60000)) s + estimatedTokens),
               expiry := (expiry s)
                 (RpmKey provider (now1 div 60000) \<mapsto> 65,
                  TpmKey provider (now1 div 60000) \<mapsto> 65),
               queues := (queues s)(provider := [])\<rparr>)"
  using assms
  by (simp add: onePass_def rpush_def getCount_def incr_def incrby_def expire_def lrem_def Let_def)

lemma onePass_waits:
  assumes "\<not> (queues s provider = []
    \<and> getCount (RpmKey provider (now1 div 60000)) s < rpm limits
    \<and> getCount (TpmKey provider (now1 div 60000)) s + estimatedTokens \<le> tpm limits)"
  shows "onePass provider (Some limits) estimatedTokens requestId now1 now2 s =
     Waitlist (length (queues s provider) + 1) (60000 - now2 mod 60000 + 100)
       (s\<lparr>queues := (queues s)(provider := remove1 requestId (queues s provider @ [requestId]))\<rparr>)"
  using assms
  by (auto simp add: onePass_def rpush_def getCount_def lrem_def Let_def)


lemma waitLoop_callbacks:
  "length (filter (\<lambda>x. case x of OnWaitlist position delay \<Rightarrow> True | SetTimeout delay \<Rightarrow> False)
      (fst (waitLoop provider limits estimatedTokens requestId script waitCount s)))
   \<le> MAX_WAITS - waitCount"
proof (induction provider limits estimatedTokens requestId script waitCount s rule: waitLoop.induct)
  case (1 provider limits estimatedTokens requestId script waitCount s)
  show ?case
  proof (cases "waitCount < MAX_WAITS")
    case False
    then show ?thesis by (subst waitLoop.simps) simp
  next
    case lt: True
    show ?thesis
    proof (cases "rejected (script waitCount)")
      case (Some e)
      then show ?thesis using lt by (subst waitLoop.simps) simp
    next
      case None
      show ?thesis
      proof (cases "onePass provider limits estimatedTokens requestId
                     (nowAtTop (script waitCount)) (nowAtDelay (script waitCount))
                     (otherClients (script waitCount) s)")
        case (Claimed s')
        then show ?thesis using lt None by (subst waitLoop.simps) simp
      next
        case (Waitlist position ms s')
        obtain later outcome final where
          rl: "waitLoop provider limits estimatedTokens requestId script (waitCount + 1) s'
                 = (later, outcome, final)"
          by (cases "waitLoop provider limits estimatedTokens requestId script (waitCount + 1) s'")
        have ih: "length (filter (\<lambda>x. case x of OnWaitlist position delay \<Rightarrow> True
                      | SetTimeout delay \<Rightarrow> False) later) \<le> MAX_WAITS - (waitCount + 1)"
          using "1.IH" [OF lt None Waitlist] rl by simp
        have "waitLoop provider limits estimatedTokens requestId script waitCount s =
            (OnWaitlist position ms # SetTimeout ms # later, outcome, final)"
          using lt None Waitlist rl by (subst waitLoop.simps) simp
        then show ?thesis using ih lt by simp
      qed
    qed
  qed
qed

lemma waitLoop_never_skips:
  "fst (snd (waitLoop provider limits estimatedTokens requestId script waitCount s)) \<noteq> Skipped"
proof (induction provider limits estimatedTokens requestId script waitCount s rule: waitLoop.induct)
  case (1 provider limits estimatedTokens requestId script waitCount s)
  show ?case
  proof (cases "waitCount < MAX_WAITS")
    case False
    then show ?thesis by (subst waitLoop.simps) simp
  next
    case lt: True
    show ?thesis
    proof (cases "rejected (script waitCount)")
      case (Some e)
      then show ?thesis using lt by (subst waitLoop.simps) simp
    next
      case None
      show ?thesis
      proof (cases "onePass provider limits estimatedTokens requestId
                     (nowAtTop (script waitCount)) (nowAtDelay (script waitCount))
                     (otherClients (script waitCount) s)")
        case (Claimed s')
        then show ?thesis using lt None by (subst waitLoop.simps) simp
      next
        case (Waitlist position ms s')
        obtain later outcome final where
          rl: "waitLoop provider limits estimatedTokens requestId script (waitCount + 1) s'
                 = (later, outcome, final)"
          by (cases "waitLoop provider limits estimatedTokens requestId script (waitCount + 1) s'")
        have "outcome \<noteq> Skipped"
          using "1.IH" [OF lt None Waitlist] rl by simp
        moreover have "waitLoop provider limits estimatedTokens requestId script waitCount s =
            (OnWaitlist position ms # SetTimeout ms # later, outcome, final)"
          using lt None Waitlist rl by (subst waitLoop.simps) simp
        ultimately show ?thesis by simp
      qed
    qed
  qed
qed

lemma waitLoop_pass:
  assumes "waitCount < 10" "rejected (script waitCount) = None"
  shows "waitLoop provider (Some limits) estimatedTokens requestId script waitCount s =
     (let s0 = otherClients (script waitCount) s;
          minute = nowAtTop (script waitCount) div 60000;
          position = length (queues s0 provider) + 1;
          currentRpm = getCount (RpmKey provider minute) s0;
          currentTpm = getCount (TpmKey provider minute) s0;
          delay = 60000 - nowAtDelay (script waitCount) mod 60000 + 100;
          dequeued = (queues s0)
            (provider := remove1 requestId (queues s0 provider @ [requestId]))
      in if position = 1 \<and> currentRpm < rpm limits
               \<and> currentTpm + estimatedTokens \<le> tpm limits
         then ([], ClaimedAt waitCount,
               s0\<lparr>counters := (counters s0)
                     (RpmKey provider minute \<mapsto> currentRpm + 1,
                      TpmKey provider minute \<mapsto> currentTpm + estimatedTokens),
                   expiry := (expiry s0)
                     (RpmKey provider minute \<mapsto> 65, TpmKey provider minute \<mapsto> 65),
                   queues := dequeued\<rparr>)
         else (OnWaitlist position delay # SetTimeout delay
                 # fst (waitLoop provider (Some limits) estimatedTokens requestId script
                         (waitCount + 1) (s0\<lparr>queues := dequeued\<rparr>)),
               snd (waitLoop provider (Some limits) estimatedTokens requestId script
                         (waitCount + 1) (s0\<lparr>queues := dequeued\<rparr>))))"
proof -
  let ?s0 = "otherClients (script waitCount) s"
  let ?n1 = "nowAtTop (script waitCount)"
  let ?n2 = "nowAtDelay (script waitCount)"
  let ?grant = "queues ?s0 provider = []
    \<and> getCount (RpmKey provider (?n1 div 60000)) ?s0 < rpm limits
    \<and> getCount (TpmKey provider (?n1 div 60000)) ?s0 + estimatedTokens \<le> tpm limits"
  have unfold: "waitLoop provider (Some limits) estimatedTokens requestId script waitCount s =
       (case onePass provider (Some limits) estimatedTokens requestId ?n1 ?n2 ?s0 of
          Claimed s' \<Rightarrow> ([], ClaimedAt waitCount, s')
        | Waitlist position ms s' \<Rightarrow>
            (case waitLoop provider (Some limits) estimatedTokens requestId script
                    (waitCount + 1) s' of
               (later, outcome, final) \<Rightarrow>
                 (OnWaitlist position ms # SetTimeout ms # later, outcome, final)))"
    using assms by (subst waitLoop.simps) (simp add: MAX_WAITS_def)
  show ?thesis
  proof (cases ?grant)
    case True
    then show ?thesis
      unfolding unfold by (simp add: onePass_claims Let_def)
  next
    case False
    then show ?thesis
      unfolding unfold by (simp add: onePass_waits Let_def split: prod.splits)
  qed
qed


lemma waitLoop_exhausted:
  "waitLoop provider limits estimatedTokens requestId script 10 s = ([], Exhausted, s)"
  by (subst waitLoop.simps) (simp add: MAX_WAITS_def)

lemma getRedis_client:
  "fst (getRedis redisUrl connects c) =
     (redisAvailable c \<and> (redisClient c \<or> (redisUrl \<noteq> None \<and> redisUrl \<noteq> Some '''' \<and> connects)))"
  by (auto simp: getRedis_def)

lemma PROVIDER_LIMITS_cases:
  "PROVIDER_LIMITS provider =
     (if provider = ''groq'' then Own \<lparr>rpm = 30, tpm = 6000\<rparr>
      else if provider = ''bedrock'' then Own \<lparr>rpm = 50, tpm = 200000\<rparr>
      else if provider = ''qwen'' then Own \<lparr>rpm = 20, tpm = 40000\<rparr>
      else if provider = ''gemini'' then Own \<lparr>rpm = 15, tpm = 1000000\<rparr>
      else if provider \<in> set objectPrototypeKeys then Inherited
      else Undefined)"
  by (simp add: PROVIDER_LIMITS_def lookupLiteral_def)

text \<open>
  C2. When \<^verbatim>\<open>getRedis\<close> yields a client and the provider has a row in
  \<^verbatim>\<open>PROVIDER_LIMITS\<close>, \<^verbatim>\<open>waitForCapacity\<close> is the loop from pass 0 on that row.
  A pass whose commands are not rejected (\<open>waitCount\<close> below 10; \<open>s0\<close> is the store the
  pass finds) claims capacity exactly when the position returned by \<^verbatim>\<open>rpush\<close> is 1,
  the request count of the minute is below the row's \<open>rpm\<close> and the token count plus
  \<open>estimatedTokens\<close> is at most its \<open>tpm\<close>: the function then returns with both counters
  incremented, their expiry set and the caller dequeued. Otherwise the caller's slot is
  removed, the callback gets the position and \<open>60000 - now mod 60000 + 100\<close>, the same
  delay is slept and the loop goes on with the next pass. After ten passes the loop is
  left without a claim, so the callback is called at most ten times.
\<close>

theorem waitForCapacity_pass:
  assumes "redisAvailable c
      \<and> (redisClient c \<or> (redisUrl \<noteq> None \<and> redisUrl \<noteq> Some '''' \<and> connects))"
    and "PROVIDER_LIMITS provider = Own limits"
  shows "waitForCapacity redisUrl connects c provider estimatedTokens requestId script s =
       (waitLoop provider (Some limits) estimatedTokens requestId script 0 s,
        snd (getRedis redisUrl connects c))
   \<and> (\<forall>waitCount st. waitCount < 10 \<and> rejected (script waitCount) = None \<longrightarrow>
        waitLoop provider (Some limits) estimatedTokens requestId script waitCount st =
        (let s0 = otherClients (script waitCount) st;
             minute = nowAtTop (script waitCount) div 60000;
             position = length (queues s0 provider) + 1;
             currentRpm = getCount (RpmKey provider minute) s0;
             currentTpm = getCount (TpmKey provider minute) s0;
             delay = 60000 - nowAtDelay (script waitCount) mod 60000 + 100;
             dequeued = (queues s0)
               (provider := remove1 requestId (queues s0 provider @ [requestId]))
         in if position = 1 \<and> currentRpm < rpm limits
                  \<and> currentTpm + estimatedTokens \<le> tpm limits
            then ([], ClaimedAt waitCount,
                  s0\<lparr>counters := (counters s0)
                        (RpmKey provider minute \<mapsto> currentRpm + 1,
                         TpmKey provider minute \<mapsto> currentTpm + estimatedTokens),
                      expiry := (expiry s0)
                        (RpmKey provider minute \<mapsto> 65, TpmKey provider minute \<mapsto> 65),
                      queues := dequeued\<rparr>)
            else (OnWaitlist position delay # SetTimeout delay
                    # fst (waitLoop provider (Some limits) estimatedTokens requestId script
                            (waitCount + 1) (s0\<lparr>queues := dequeued\<rparr>)),
                  snd (waitLoop provider (Some limits) estimatedTokens requestId script
                            (waitCount + 1) (s0\<lparr>queues := dequeued\<rparr>)))))
   \<and> (\<forall>st. waitLoop provider (Some limits) estimatedTokens requestId script 10 st
             = ([], Exhausted, st))
   \<and> length (filter (\<lambda>x. case x of OnWaitlist position delay \<Rightarrow> True | SetTimeout delay \<Rightarrow> False)
        (fst (fst (waitForCapacity redisUrl connects c provider estimatedTokens requestId
                     script s)))) \<le> 10"
proof -
  have g: "fst (getRedis redisUrl connects c) = True"
    using assms(1) by (simp add: getRedis_client)
  have link: "waitForCapacity redisUrl connects c provider estimatedTokens requestId script s =
       (waitLoop provider (Some limits) estimatedTokens requestId script 0 s,
        snd (getRedis redisUrl connects c))"
    using g assms(2) by (cases "getRedis redisUrl connects c") (simp add: waitForCapacity_def)
  have cb: "length (filter (\<lambda>x. case x of OnWaitlist position delay \<Rightarrow> True | SetTimeout delay \<Rightarrow> False)
        (fst (fst (waitForCapacity redisUrl connects c provider estimatedTokens requestId
                     script s)))) \<le> 10"
    using waitLoop_callbacks [of provider "Some limits" estimatedTokens requestId script 0 s]
    by (simp add: link MAX_WAITS_def)
  show ?thesis
    using link cb waitLoop_pass [of _ script provider limits estimatedTokens requestId]
      waitLoop_exhausted [of provider "Some limits" estimatedTokens requestId script]
    by blast
qed

theorem waitForCapacity_pass_witness:
  "waitForCapacity (Some ''redis://cache'') True \<lparr>redisAvailable = True, redisClient = False\<rparr>
      ''groq'' 100 ''r1''
      (\<lambda>n. \<lparr>nowAtTop = 120000, nowAtDelay = 125000, otherClients = (\<lambda>s. s), rejected = None\<rparr>)
      \<lparr>counters = [RpmKey ''groq'' 2 \<mapsto> 29, TpmKey ''groq'' 2 \<mapsto> 5900], expiry = Map.empty,
       queues = (\<lambda>q. [])\<rparr>
    = (([], ClaimedAt 0,
        \<lparr>counters = [RpmKey ''groq'' 2 \<mapsto> 30, TpmKey ''groq'' 2 \<mapsto> 6000],
         expiry = [RpmKey ''groq'' 2 \<mapsto> 65, TpmKey ''groq'' 2 \<mapsto> 65],
         queues = (\<lambda>q. [])\<rparr>),
       \<lparr>redisAvailable = True, redisClient = True\<rparr>)
   \<and> fst (waitForCapacity (Some ''redis://cache'') True
          \<lparr>redisAvailable = True, redisClient = True\<rparr> ''groq'' 100 ''r1''
          (\<lambda>n. \<lparr>nowAtTop = 120000, nowAtDelay = 125000, otherClients = (\<lambda>s. s),
                 rejected = None\<rparr>)
          \<lparr>counters = [RpmKey ''groq'' 2 \<mapsto> 30], expiry = Map.empty, queues = (\<lambda>q. [])\<rparr>)
    = (concat (replicate 10 [OnWaitlist 1 55100, SetTimeout 55100]), Exhausted,
       \<lparr>counters = [RpmKey ''groq'' 2 \<mapsto> 30], expiry = Map.empty, queues = (\<lambda>q. [])\<rparr>)
   \<and> fst (waitForCapacity (Some ''redis://cache'') True
          \<lparr>redisAvailable = True, redisClient = True\<rparr> ''groq'' 100 ''r1''
          (\<lambda>n. \<lparr>nowAtTop = 120000, nowAtDelay = 125000, otherClients = (\<lambda>s. s),
                 rejected = None\<rparr>)
          \<lparr>counters = [TpmKey ''groq'' 2 \<mapsto> 5901], expiry = Map.empty, queues = (\<lambda>q. [])\<rparr>)
    = (concat (replicate 10 [OnWaitlist 1 55100, SetTimeout 55100]), Exhausted,
       \<lparr>counters = [TpmKey ''groq'' 2 \<mapsto> 5901], expiry = Map.empty, queues = (\<lambda>q. [])\<rparr>)
   \<and> fst (waitForCapacity (Some ''redis://cache'') True
          \<lparr>redisAvailable = True, redisClient = True\<rparr> ''groq'' 100 ''r1''
          (\<lambda>n. \<lparr>nowAtTop = 120000, nowAtDelay = 125000, otherClients = (\<lambda>s. s),
                 rejected = None\<rparr>)
          \<lparr>counters = Map.empty, expiry = Map.empty, queues = (\<lambda>q. [''r0''])\<rparr>)
    = (concat (replicate 10 [OnWaitlist 2 55100, SetTimeout 55100]), Exhausted,
       \<lparr>counters = Map.empty, expiry = Map.empty, queues = (\<lambda>q. [''r0''])\<rparr>)"
proof -
  let ?script = "\<lambda>n::nat. \<lparr>nowAtTop = 120000, nowAtDelay = 125000, otherClients = (\<lambda>s. s),
      rejected = None\<rparr>"
  let ?lim = "\<lparr>rpm = 30, tpm = 6000\<rparr>"
  let ?new = "\<lparr>redisAvailable = True, redisClient = False\<rparr>"
  let ?live = "\<lparr>redisAvailable = True, redisClient = True\<rparr>"
  have row: "PROVIDER_LIMITS ''groq'' = Own ?lim" by (simp add: PROVIDER_LIMITS_cases)
  have q: "(\<lambda>q. [])(''groq'' := []) = (\<lambda>q. ([] :: string list))"
    "(\<lambda>q. [''r0''])(''groq'' := [''r0'']) = (\<lambda>q. [''r0''])" by auto
  have r: "replicate 10 x = [x, x, x, x, x, x, x, x, x, x]" for x :: "GateEffect list"
    by (simp add: numeral_eq_Suc)
  note t = waitForCapacity_pass [where redisUrl = "Some ''redis://cache''" and connects = True
      and provider = "''groq''" and limits = ?lim and estimatedTokens = 100
      and requestId = "''r1''" and script = ?script, OF _ row]
  have t1: "waitForCapacity (Some ''redis://cache'') True ?new ''groq'' 100 ''r1'' ?script s =
       (waitLoop ''groq'' (Some ?lim) 100 ''r1'' ?script 0 s, ?live)" for s
    using t [of ?new s] by (simp add: getRedis_def)
  have t2: "waitForCapacity (Some ''redis://cache'') True ?live ''groq'' 100 ''r1'' ?script s =
       (waitLoop ''groq'' (Some ?lim) 100 ''r1'' ?script 0 s, ?live)" for s
    using t [of ?live s] by (simp add: getRedis_def)
  have pass: "waitCount < 10 \<Longrightarrow>
        waitLoop ''groq'' (Some ?lim) 100 ''r1'' ?script waitCount st =
        (if length (queues st ''groq'') + 1 = 1 \<and> getCount (RpmKey ''groq'' 2) st < 30
              \<and> getCount (TpmKey ''groq'' 2) st + 100 \<le> 6000
         then ([], ClaimedAt waitCount,
               st\<lparr>counters := (counters st)
                     (RpmKey ''groq'' 2 \<mapsto> getCount (RpmKey ''groq'' 2) st + 1,
                      TpmKey ''groq'' 2 \<mapsto> getCount (TpmKey ''groq'' 2) st + 100),
                   expiry := (expiry st)
                     (RpmKey ''groq'' 2 \<mapsto> 65, TpmKey ''groq'' 2 \<mapsto> 65),
                   queues := (queues st)
                     (''groq'' := remove1 ''r1'' (queues st ''groq'' @ [''r1'']))\<rparr>)
         else (OnWaitlist (length (queues st ''groq'') + 1) 55100 # SetTimeout 55100
                 # fst (waitLoop ''groq'' (Some ?lim) 100 ''r1'' ?script (Suc waitCount)
                         (st\<lparr>queues := (queues st)
                            (''groq'' := remove1 ''r1'' (queues st ''groq'' @ [''r1'']))\<rparr>)),
               snd (waitLoop ''groq'' (Some ?lim) 100 ''r1'' ?script (Suc waitCount)
                         (st\<lparr>queues := (queues st)
                            (''groq'' := remove1 ''r1'' (queues st ''groq'' @ [''r1'']))\<rparr>))))"
    for waitCount st
    using t [of ?live st] by (simp add: Let_def)
  have stop: "waitLoop ''groq'' (Some ?lim) 100 ''r1'' ?script 10 st = ([], Exhausted, st)" for st
    using t [of ?live st] by simp
  have ten: "(10::nat) = Suc (Suc (Suc (Suc (Suc (Suc (Suc (Suc (Suc (Suc 0)))))))))" by simp
  note stop' = stop [unfolded ten]
  let ?claim = "\<lparr>counters = [RpmKey ''groq'' 2 \<mapsto> 29, TpmKey ''groq'' 2 \<mapsto> 5900],
      expiry = Map.empty, queues = (\<lambda>q. ([] :: string list))\<rparr>"
  let ?noRpm = "\<lparr>counters = [RpmKey ''groq'' 2 \<mapsto> 30], expiry = Map.empty,
      queues = (\<lambda>q. ([] :: string list))\<rparr>"
  let ?noTpm = "\<lparr>counters = [TpmKey ''groq'' 2 \<mapsto> 5901], expiry = Map.empty,
      queues = (\<lambda>q. ([] :: string list))\<rparr>"
  let ?second = "\<lparr>counters = Map.empty, expiry = Map.empty, queues = (\<lambda>q. [''r0''])\<rparr>"
  have claimed: "waitLoop ''groq'' (Some ?lim) 100 ''r1'' ?script 0 ?claim =
      ([], ClaimedAt 0,
        \<lparr>counters = [RpmKey ''groq'' 2 \<mapsto> 30, TpmKey ''groq'' 2 \<mapsto> 6000],
         expiry = [RpmKey ''groq'' 2 \<mapsto> 65, TpmKey ''groq'' 2 \<mapsto> 65],
         queues = (\<lambda>q. [])\<rparr>)"
    using pass [of 0 ?claim] by (simp add: getCount_def q)
  have stepRpm: "waitCount < 10 \<Longrightarrow>
      waitLoop ''groq'' (Some ?lim) 100 ''r1'' ?script waitCount ?noRpm
      = (OnWaitlist 1 55100 # SetTimeout 55100
           # fst (waitLoop ''groq'' (Some ?lim) 100 ''r1'' ?script (Suc waitCount) ?noRpm),
         snd (waitLoop ''groq'' (Some ?lim) 100 ''r1'' ?script (Suc waitCount) ?noRpm))"
    for waitCount
    using pass [of waitCount ?noRpm] by (simp add: getCount_def q)
  have stepTpm: "waitCount < 10 \<Longrightarrow>
      waitLoop ''groq'' (Some ?lim) 100 ''r1'' ?script waitCount ?noTpm
      = (OnWaitlist 1 55100 # SetTimeout 55100
           # fst (waitLoop ''groq'' (Some ?lim) 100 ''r1'' ?script (Suc waitCount) ?noTpm),
         snd (waitLoop ''groq'' (Some ?lim) 100 ''r1'' ?script (Suc waitCount) ?noTpm))"
    for waitCount
    using pass [of waitCount ?noTpm] by (simp add: getCount_def q)
  have stepSecond: "waitCount < 10 \<Longrightarrow>
      waitLoop ''groq'' (Some ?lim) 100 ''r1'' ?script waitCount ?second
      = (OnWaitlist 2 55100 # SetTimeout 55100
           # fst (waitLoop ''groq'' (Some ?lim) 100 ''r1'' ?script (Suc waitCount) ?second),
         snd (waitLoop ''groq'' (Some ?lim) 100 ''r1'' ?script (Suc waitCount) ?second))"
    for waitCount
    using pass [of waitCount ?second] by (simp add: getCount_def q)
  have blockedRpm: "waitLoop ''groq'' (Some ?lim) 100 ''r1'' ?script 0 ?noRpm
      = (concat (replicate 10 [OnWaitlist 1 55100, SetTimeout 55100]), Exhausted, ?noRpm)"
    by (simp add: stepRpm stop' r)
  have blockedTpm: "waitLoop ''groq'' (Some ?lim) 100 ''r1'' ?script 0 ?noTpm
      = (concat (replicate 10 [OnWaitlist 1 55100, SetTimeout 55100]), Exhausted, ?noTpm)"
    by (simp add: stepTpm stop' r)
  have blockedSecond: "waitLoop ''groq'' (Some ?lim) 100 ''r1'' ?script 0 ?second
      = (concat (replicate 10 [OnWaitlist 2 55100, SetTimeout 55100]), Exhausted, ?second)"
    by (simp add: stepSecond stop' r)
  show ?thesis
    unfolding t1 t2 claimed blockedRpm blockedTpm blockedSecond by simp
qed




subsection \<open>The retry supervisor\<close>

lemma includes_str_iff:
  "includes_str s t \<longleftrightarrow> (\<exists>pre post. s = pre @ t @ post)"
proof (induction s)
  case Nil
  then show ?case by simp
next
  case (Cons x xs)
  have starts: "(take (length t) (x # xs) = t) = (\<exists>post. x # xs = t @ post)"
  proof
    assume "take (length t) (x # xs) = t"
    then have "x # xs = t @ drop (length t) (x # xs)"
      using append_take_drop_id [of "length t" "x # xs"] by simp
    then show "\<exists>post. x # xs = t @ post" by blast
  next
    assume "\<exists>post. x # xs = t @ post"
    then obtain post where "x # xs = t @ post" by blast
    then show "take (length t) (x # xs) = t" by simp
  qed
  show ?case
  proof
    assume "includes_str (x # xs) t"
    then consider "\<exists>post. x # xs = t @ post" | "\<exists>pre post. xs = pre @ t @ post"
      using starts Cons.IH by auto
    then show "\<exists>pre post. x # xs = pre @ t @ post"
    proof cases
      case 1
      then obtain post where "x # xs = [] @ t @ post" by auto
      then show ?thesis by blast
    next
      case 2
      then obtain pre post where "x # xs = (x # pre) @ t @ post" by auto
      then show ?thesis by blast
    qed
  next
    assume "\<exists>pre post. x # xs = pre @ t @ post"
    then obtain pre post where pp: "x # xs = pre @ t @ post" by blast
    show "includes_str (x # xs) t"
    proof (cases pre)
      case Nil
      then have "\<exists>post. x # xs = t @ post" using pp by auto
      then show ?thesis using starts by simp
    next
      case (Cons y ys)
      then have "xs = ys @ t @ post" using pp by simp
      then have "includes_str xs t" using Cons.IH by blast
      then show ?thesis by simp
    qed
  qed
qed

lemma attemptIs_le: "attemptIs a m \<Longrightarrow> attemptLe a m"
  by (cases m) simp_all

lemma retryLoop_failed_round:
  assumes "attemptLe attempt m" "\<not> attemptIs attempt m"
    "snd (tryBlock h (script attempt)) = Inl e"
  shows "retryLoop p h script m attempt =
     map_option (\<lambda>(later, outcome).
         (fst (tryBlock h (script attempt)) @ catchBlock p h m attempt e @ later, outcome))
       (retryLoop p h script m (attempt + 1))"
proof -
  obtain effects where tb: "tryBlock h (script attempt) = (effects, Inl e)"
    using assms(3) by (cases "tryBlock h (script attempt)") simp
  show ?thesis
  proof (cases "retryLoop p h script m (attempt + 1)")
    case None
    then show ?thesis using assms(1,2) tb by (subst retryLoop.simps) simp
  next
    case (Some r)
    then show ?thesis using assms(1,2) tb
      by (subst retryLoop.simps) (simp split: prod.splits)
  qed
qed

lemma retryLoop_last_failed:
  assumes "attemptIs attempt m" "snd (tryBlock h (script attempt)) = Inl e"
  shows "retryLoop p h script m attempt =
     Some (fst (tryBlock h (script attempt)), AttemptError e)"
proof -
  obtain effects where tb: "tryBlock h (script attempt) = (effects, Inl e)"
    using assms(2) by (cases "tryBlock h (script attempt)") simp
  show ?thesis
    using assms(1) attemptIs_le [OF assms(1)] tb by (subst retryLoop.simps) simp
qed

lemma retryLoop_returned:
  assumes "attemptLe attempt m" "snd (tryBlock h (script attempt)) = Inr v"
  shows "retryLoop p h script m attempt =
     Some (fst (tryBlock h (script attempt)), Returned v)"
proof -
  obtain effects where tb: "tryBlock h (script attempt) = (effects, Inr v)"
    using assms(2) by (cases "tryBlock h (script attempt)") simp
  show ?thesis
    using assms(1) tb by (subst retryLoop.simps) simp
qed

lemma retryLoop_left:
  "\<not> attemptLe attempt m \<Longrightarrow>
   retryLoop p h script m attempt = Some ([], RetriesExhausted p m)"
  by (subst retryLoop.simps) simp

lemma attemptLe_floor: "attemptLe a (Num q) = (a \<le> \<lfloor>q\<rfloor>)"
  by (simp add: le_floor_iff)

lemma attemptLe_down: "attemptLe k m \<Longrightarrow> a \<le> k \<Longrightarrow> attemptLe a m"
proof (cases m)
  case (Num q)
  assume "attemptLe k m" "a \<le> k"
  then show ?thesis unfolding Num attemptLe_floor by linarith
qed simp_all

lemma attemptIs_below: "attemptLe k m \<Longrightarrow> a < k \<Longrightarrow> \<not> attemptIs a m"
proof (cases m)
  case (Num q)
  assume "attemptLe k m" "a < k"
  then have "a < \<lfloor>q\<rfloor>" unfolding Num attemptLe_floor by linarith
  then have "of_int a < q" by (simp add: less_floor_iff)
  then show ?thesis unfolding Num by simp
qed simp_all

lemma retryLoop_failed_rounds:
  assumes "j \<le> k" "attemptLe k m" "\<not> attemptIs k m"
    "\<forall>a. j \<le> a \<and> a \<le> k \<longrightarrow> snd (tryBlock h (script a)) = Inl (err a)"
  shows "retryLoop p h script m j =
     map_option (\<lambda>(later, outcome).
         (concat (map (\<lambda>a. fst (tryBlock h (script a)) @ catchBlock p h m a (err a)) [j..k])
            @ later, outcome))
       (retryLoop p h script m (k + 1))"
  using assms
proof (induction "nat (k - j)" arbitrary: j)
  case 0
  then have jk: "j = k" by simp
  have f: "snd (tryBlock h (script k)) = Inl (err k)" using 0 jk by simp
  show ?case
    unfolding jk
    using retryLoop_failed_round [where attempt = k and m = m and h = h and script = script
        and e = "err k" and p = p] "0.prems"(2,3) f
    by simp
next
  case (Suc n)
  then have lt: "j < k" by linarith
  have f: "snd (tryBlock h (script j)) = Inl (err j)" using Suc.prems by simp
  have n: "n = nat (k - (j + 1))" using Suc.hyps(2) by linarith
  have rest: "\<forall>a. j + 1 \<le> a \<and> a \<le> k \<longrightarrow> snd (tryBlock h (script a)) = Inl (err a)"
    using Suc.prems(4) by simp
  have jle: "attemptLe j m" using attemptLe_down [OF Suc.prems(2)] lt by simp
  have jis: "\<not> attemptIs j m" using attemptIs_below [OF Suc.prems(2) lt] .
  have up: "[j..k] = j # [j + 1..k]" using lt by (simp add: upto_rec1)
  have ih: "retryLoop p h script m (j + 1) =
     map_option (\<lambda>(later, outcome).
         (concat (map (\<lambda>a. fst (tryBlock h (script a)) @ catchBlock p h m a (err a)) [j + 1..k])
            @ later, outcome))
       (retryLoop p h script m (k + 1))"
    using Suc.hyps(1) [of "j + 1"] n Suc.prems(2,3) rest lt by simp
  have one: "retryLoop p h script m j =
     map_option (\<lambda>(later, outcome).
         (fst (tryBlock h (script j)) @ catchBlock p h m j (err j) @ later, outcome))
       (retryLoop p h script m (j + 1))"
    using retryLoop_failed_round [where attempt = j and m = m and h = h and script = script
        and e = "err j" and p = p] jle jis f
    by simp
  show ?case
    unfolding one ih up
    by (cases "retryLoop p h script m (k + 1)") (simp_all split: prod.splits)
qed

lemma tryBlock_calls:
  "length (filter (\<lambda>x. x = ApiCall) (fst (tryBlock h att))) \<le> 1"
proof -
  have "filter (\<lambda>x. x = ApiCall)
      (concat (map (\<lambda>(position, waitTimeMs).
          notify h (Waitlisted position (- (- waitTimeMs div 1000)))) ws)) = []" for ws
    by (induction ws) (auto simp: notify_def)
  then show ?thesis
    by (simp add: tryBlock_def Let_def split: option.splits)
qed

lemma catchBlock_calls:
  "filter (\<lambda>x. x = ApiCall) (catchBlock p h m a e) = []"
  by (simp add: catchBlock_def notify_def)

text \<open>For a finite \<^verbatim>\<open>maxRetries\<close> the loop comes to an end, after at most \<open>\<lfloor>q\<rfloor>\<close> calls.\<close>

lemma retryLoop_finite:
  "\<exists>effects outcome. retryLoop p h script (Num q) j = Some (effects, outcome)
     \<and> int (length (filter (\<lambda>x. x = ApiCall) effects)) \<le> max 0 (\<lfloor>q\<rfloor> + 1 - j)
     \<and> (of_int \<lfloor>q\<rfloor> = q \<and> j \<le> \<lfloor>q\<rfloor> \<longrightarrow> (\<forall>x n. outcome \<noteq> RetriesExhausted x n))"
proof (induction "nat (\<lfloor>q\<rfloor> + 1 - j)" arbitrary: j)
  case 0
  then have nle: "\<not> j \<le> \<lfloor>q\<rfloor>" by simp
  then have "\<not> attemptLe j (Num q)" unfolding attemptLe_floor .
  moreover note nle
  ultimately show ?case by (simp add: retryLoop_left)
next
  case (Suc n)
  then have le: "j \<le> \<lfloor>q\<rfloor>" by linarith
  then have al: "attemptLe j (Num q)" unfolding attemptLe_floor .
  obtain effects r where tb: "tryBlock h (script j) = (effects, r)"
    by (cases "tryBlock h (script j)")
  have c: "length (filter (\<lambda>x. x = ApiCall) effects) \<le> 1"
    using tryBlock_calls [of h "script j"] tb by simp
  show ?case
  proof (cases r)
    case (Inr v)
    then have "retryLoop p h script (Num q) j = Some (effects, Returned v)"
      using retryLoop_returned [of j "Num q" h script v p] al tb by simp
    then show ?thesis using c le by simp
  next
    case (Inl e)
    show ?thesis
    proof (cases "attemptIs j (Num q)")
      case True
      then have "retryLoop p h script (Num q) j = Some (effects, AttemptError e)"
        using retryLoop_last_failed [of j "Num q" h script e p] tb Inl by simp
      then show ?thesis using c le by simp
    next
      case False
      have n: "n = nat (\<lfloor>q\<rfloor> + 1 - (j + 1))" using Suc.hyps(2) by linarith
      obtain later outcome where
        rl: "retryLoop p h script (Num q) (j + 1) = Some (later, outcome)"
        and lc: "int (length (filter (\<lambda>x. x = ApiCall) later)) \<le> max 0 (\<lfloor>q\<rfloor> + 1 - (j + 1))"
        and ne: "of_int \<lfloor>q\<rfloor> = q \<and> j + 1 \<le> \<lfloor>q\<rfloor> \<longrightarrow> (\<forall>x n. outcome \<noteq> RetriesExhausted x n)"
        using Suc.hyps(1) [OF n] by blast
      have "retryLoop p h script (Num q) j =
          Some (effects @ catchBlock p h (Num q) j e @ later, outcome)"
        using retryLoop_failed_round [of j "Num q" h script e p] al False tb Inl rl by simp
      moreover have "int (length (filter (\<lambda>x. x = ApiCall)
          (effects @ catchBlock p h (Num q) j e @ later))) \<le> max 0 (\<lfloor>q\<rfloor> + 1 - j)"
        using c lc le by (simp add: catchBlock_calls)
      moreover have "of_int \<lfloor>q\<rfloor> = q \<and> j \<le> \<lfloor>q\<rfloor> \<longrightarrow> (\<forall>x n. outcome \<noteq> RetriesExhausted x n)"
      proof (rule impI)
        assume i: "of_int \<lfloor>q\<rfloor> = q \<and> j \<le> \<lfloor>q\<rfloor>"
        then have "j \<noteq> \<lfloor>q\<rfloor>" using False by auto
        then show "\<forall>x n. outcome \<noteq> RetriesExhausted x n" using ne i le by simp
      qed
      ultimately show ?thesis by blast
    qed
  qed
qed

lemma retryLoop_all_failed:
  assumes "1 \<le> k" "attemptIs k m"
    "\<forall>a. 1 \<le> a \<and> a \<le> k \<longrightarrow> snd (tryBlock h (script a)) = Inl (err a)"
  shows "retryLoop p h script m 1 =
     Some (concat (map (\<lambda>a. fst (tryBlock h (script a)) @ catchBlock p h m a (err a)) [1..k - 1])
             @ fst (tryBlock h (script k)),
           AttemptError (err k))"
proof -
  have f: "snd (tryBlock h (script k)) = Inl (err k)" using assms by simp
  have l: "retryLoop p h script m k = Some (fst (tryBlock h (script k)), AttemptError (err k))"
    using retryLoop_last_failed [where attempt = k and m = m and h = h and script = script
        and e = "err k" and p = p] assms(2) f by simp
  have kl: "attemptLe k m" using attemptIs_le [OF assms(2)] .
  show ?thesis
  proof (cases "k = 1")
    case True
    then show ?thesis using l by simp
  next
    case False
    then have one: "1 \<le> k - 1" using assms(1) by simp
    have le: "attemptLe (k - 1) m" using attemptLe_down [OF kl, of "k - 1"] by simp
    have nis: "\<not> attemptIs (k - 1) m" using attemptIs_below [OF kl, of "k - 1"] by simp
    have pre: "\<forall>a. 1 \<le> a \<and> a \<le> k - 1 \<longrightarrow> snd (tryBlock h (script a)) = Inl (err a)"
      using assms(3) by simp
    show ?thesis
      using retryLoop_failed_rounds [where j = 1 and k = "k - 1" and m = m and h = h
          and script = script and err = err and p = p] one le nis pre l
      by simp
  qed
qed

lemma retryLoop_runs_out:
  assumes "q < 1 \<or> of_int \<lfloor>q\<rfloor> \<noteq> q"
    "\<forall>a. 1 \<le> a \<and> a \<le> \<lfloor>q\<rfloor> \<longrightarrow> snd (tryBlock h (script a)) = Inl (err a)"
  shows "retryLoop p h script (Num q) 1 =
     Some (concat (map (\<lambda>a. fst (tryBlock h (script a)) @ catchBlock p h (Num q) a (err a))
                    [1..\<lfloor>q\<rfloor>]),
           RetriesExhausted p (Num q))"
proof (cases "1 \<le> \<lfloor>q\<rfloor>")
  case False
  then have "\<not> attemptLe 1 (Num q)" unfolding attemptLe_floor .
  then show ?thesis using False by (simp add: retryLoop_left)
next
  case True
  then have "1 \<le> q" by (simp add: le_floor_iff)
  then have frac: "of_int \<lfloor>q\<rfloor> \<noteq> q" using assms(1) by simp
  have le: "attemptLe \<lfloor>q\<rfloor> (Num q)" unfolding attemptLe_floor by simp
  have nis: "\<not> attemptIs \<lfloor>q\<rfloor> (Num q)" using frac by simp
  have out: "retryLoop p h script (Num q) (\<lfloor>q\<rfloor> + 1) = Some ([], RetriesExhausted p (Num q))"
    by (rule retryLoop_left) (simp add: attemptLe_floor del: attemptLe.simps)
  show ?thesis
    using retryLoop_failed_rounds [where j = 1 and k = "\<lfloor>q\<rfloor>" and m = "Num q" and h = h
        and script = script and err = err and p = p] True le nis assms(2)
    by (simp add: out del: attemptLe.simps attemptIs.simps)
qed

text \<open>With \<^verbatim>\<open>Infinity\<close> for \<^verbatim>\<open>maxRetries\<close> the loop is only left by a call that returns.\<close>

lemma retryLoop_unbounded:
  assumes "retryLoop p h script PosInfinity j = Some r"
  shows "\<exists>v. snd r = Returned v"
proof -
  have "PosInfinity = PosInfinity \<longrightarrow> (\<exists>v. snd r = Returned v)"
  proof (rule retryLoop.raw_induct
      [where P = "\<lambda>p h script m j r. m = PosInfinity \<longrightarrow> (\<exists>v. snd r = Returned v)",
       OF _ assms])
    fix f :: "ApiProvider \<Rightarrow> bool \<Rightarrow> (int \<Rightarrow> 'a Attempt) \<Rightarrow> JsNumber \<Rightarrow> int
        \<Rightarrow> (Effect list \<times> 'a RetryOutcome) option"
    fix p h script m j r
    assume IH: "\<And>p h script m j r. f p h script m j = Some r \<Longrightarrow>
        m = PosInfinity \<longrightarrow> (\<exists>v. snd r = Returned v)"
    assume body: "(if attemptLe j m
      then case tryBlock h (script j) of
           (effects, Inl e) \<Rightarrow>
             if attemptIs j m then Some (effects, AttemptError e)
             else Option.bind (f p h script m (j + 1))
                   (\<lambda>(later, outcome).
                       Some (effects @ catchBlock p h m j e @ later, outcome))
           | (effects, Inr v) \<Rightarrow> Some (effects, Returned v)
      else Some ([], RetriesExhausted p m)) = Some r"
    show "m = PosInfinity \<longrightarrow> (\<exists>v. snd r = Returned v)"
    proof (rule impI)
      assume m: "m = PosInfinity"
      obtain effects res where tb: "tryBlock h (script j) = (effects, res)"
        by (cases "tryBlock h (script j)")
      show "\<exists>v. snd r = Returned v"
      proof (cases res)
        case (Inr v)
        then show ?thesis using body m tb by auto
      next
        case (Inl e)
        then obtain r' where f: "f p h script m (j + 1) = Some r'" and r: "snd r = snd r'"
          using body m tb
          by (cases "f p h script m (j + 1)") (auto split: prod.splits)
        show ?thesis using IH [OF f] m r by simp
      qed
    qed
  qed
  then show ?thesis by simp
qed

text \<open>
  C5. In a run of \<^verbatim>\<open>withSmartRetries\<close> whose attempts \<open>1..k\<close> fail (the admission
  wait or the call of attempt \<open>a\<close> throws \<open>err a\<close>), with \<open>limit\<close> the value of
  \<^verbatim>\<open>maxRetries\<close> after the default: every failed attempt \<open>a\<close> that is not the last is
  followed, in this order, by the status text (through \<^verbatim>\<open>onStatus\<close> when a callback
  was passed), the warning and a sleep. The sleep is 10 seconds when the message of the
  caught \<^verbatim>\<open>Error\<close> (for another value: its string form) contains \<^verbatim>\<open>429\<close> or the
  value has the status 429, and \<open>2 ^ a\<close> seconds otherwise; then the loop goes on with
  attempt \<open>k + 1\<close>. When \<open>k\<close> is the last attempt (\<^verbatim>\<open>attempt === maxRetries\<close>), nothing
  follows its \<^verbatim>\<open>try\<close> block and its error \<open>err k\<close> is what the caller gets.
\<close>

theorem withSmartRetries_backoff_and_propagation:
  fixes p :: ApiProvider and h :: bool
    and err :: "int \<Rightarrow> thrown" and maxRetries :: "JsNumber option"
    and limit :: JsNumber and throttled :: "int \<Rightarrow> bool" and seconds :: "int \<Rightarrow> int"
    and retry :: "int \<Rightarrow> Effect list"
  defines "limit \<equiv> (case maxRetries of None \<Rightarrow> Num 3 | Some m \<Rightarrow> m)"
    and "throttled \<equiv> \<lambda>a.
      (\<exists>pre post. (if isError (err a) then message (err a) else asString (err a))
          = pre @ ''429'' @ post)
      \<or> status (err a) = Some 429"
    and "seconds \<equiv> \<lambda>a. if throttled a then 10 else 2 ^ nat a"
    and "retry \<equiv> \<lambda>a. notify h (RetryingIn (seconds a) (a + 1) limit)
          @ [ConsoleWarn p a (seconds a * 1000) (err a), Timeout (seconds a * 1000)]"
  assumes "1 \<le> k" "attemptLe k limit"
    "\<forall>a. 1 \<le> a \<and> a \<le> k \<longrightarrow> snd (tryBlock h (script a)) = Inl (err a)"
  shows "(\<not> attemptIs k limit \<longrightarrow>
      withSmartRetries p script h maxRetries =
        map_option (\<lambda>(later, outcome).
            (concat (map (\<lambda>a. fst (tryBlock h (script a)) @ retry a) [1..k]) @ later, outcome))
          (retryLoop p h script limit (k + 1)))
    \<and> (attemptIs k limit \<longrightarrow>
      withSmartRetries p script h maxRetries =
        Some (concat (map (\<lambda>a. fst (tryBlock h (script a)) @ retry a) [1..k - 1])
                @ fst (tryBlock h (script k)),
              AttemptError (err k)))"
proof -
  have w: "withSmartRetries p script h maxRetries = retryLoop p h script limit 1"
    by (simp add: withSmartRetries_def limit_def)
  have th: "isRateLimit (err a) = throttled a" for a
    by (simp add: isRateLimit_def includes_str_iff errorText_def throttled_def)
  have cb: "catchBlock p h limit a (err a) = retry a" for a
    by (simp add: catchBlock_def waitTime_def th retry_def seconds_def)
  have a: "withSmartRetries p script h maxRetries =
        map_option (\<lambda>(later, outcome).
            (concat (map (\<lambda>a. fst (tryBlock h (script a)) @ retry a) [1..k]) @ later, outcome))
          (retryLoop p h script limit (k + 1))"
    if "\<not> attemptIs k limit"
    using retryLoop_failed_rounds [where j = 1 and k = k and m = limit and h = h
        and script = script and err = err and p = p] assms(5-7) that
    by (simp add: w cb)
  have b: "withSmartRetries p script h maxRetries =
        Some (concat (map (\<lambda>a. fst (tryBlock h (script a)) @ retry a) [1..k - 1])
                @ fst (tryBlock h (script k)),
              AttemptError (err k))"
    if last: "attemptIs k limit"
    using retryLoop_all_failed [where k = k and m = limit and h = h and script = script
        and err = err and p = p] assms(5-7) last
    by (simp add: w cb)
  show ?thesis using a b by blast
qed

theorem withSmartRetries_backoff_and_propagation_witness:
  "(let throttledByMessage = newError ''Gemini API error: 429 Too Many Requests'';
        throttledByStatus = \<lparr>isError = False, message = '''', asString = ''[object Object]'',
                               status = Some 429\<rparr>;
        storeDown = newError ''Connection is closed.'';
        script = (\<lambda>a. if a = 1 then \<lparr>waitlisted = [(2, 55100)], gateThrows = None,
                                      apiResult = Inl throttledByMessage\<rparr>
                 else if a = 2 then \<lparr>waitlisted = [], gateThrows = None,
                                      apiResult = Inl throttledByStatus\<rparr>
                 else if a = 3 then \<lparr>waitlisted = [], gateThrows = Some storeDown,
                                      apiResult = Inr ''unused''\<rparr>
                 else \<lparr>waitlisted = [], gateThrows = None, apiResult = Inr ''answer''\<rparr>)
    in withSmartRetries Gemini script True None =
         Some ([OnStatus (Waitlisted 2 56), ApiCall,
                OnStatus (RetryingIn 10 2 (Num 3)),
                ConsoleWarn Gemini 1 10000 throttledByMessage, Timeout 10000,
                ApiCall,
                OnStatus (RetryingIn 10 3 (Num 3)),
                ConsoleWarn Gemini 2 10000 throttledByStatus, Timeout 10000],
               AttemptError storeDown)
     \<and> withSmartRetries Gemini script False (Some (Num 4)) =
         Some ([ApiCall,
                ConsoleWarn Gemini 1 10000 throttledByMessage, Timeout 10000,
                ApiCall,
                ConsoleWarn Gemini 2 10000 throttledByStatus, Timeout 10000,
                ConsoleWarn Gemini 3 8000 storeDown, Timeout 8000,
                ApiCall],
               Returned ''answer''))"
proof -
  let ?e1 = "newError ''Gemini API error: 429 Too Many Requests''"
  let ?e2 = "\<lparr>isError = False, message = '''', asString = ''[object Object]'', status = Some 429\<rparr>"
  let ?e3 = "newError ''Connection is closed.''"
  let ?script = "\<lambda>a::int. if a = 1 then \<lparr>waitlisted = [(2, 55100)], gateThrows = None,
                                      apiResult = Inl ?e1\<rparr>
                 else if a = 2 then \<lparr>waitlisted = [], gateThrows = None, apiResult = Inl ?e2\<rparr>
                 else if a = 3 then \<lparr>waitlisted = [], gateThrows = Some ?e3,
                                      apiResult = Inr ''unused''\<rparr>
                 else \<lparr>waitlisted = [], gateThrows = None, apiResult = Inr ''answer''\<rparr>"
  let ?err = "\<lambda>a::int. if a = 1 then ?e1 else if a = 2 then ?e2 else ?e3"
  have fails: "\<forall>a. 1 \<le> a \<and> a \<le> 3 \<longrightarrow> snd (tryBlock h (?script a)) = Inl (?err a)" for h
    by (simp add: tryBlock_def)
  have c1: "\<exists>pre post. ''Gemini API error: 429 Too Many Requests''
      = pre @ CHR ''4'' # CHR ''2'' # CHR ''9'' # post"
    using includes_str_iff [of "''Gemini API error: 429 Too Many Requests''" "''429''"] by simp
  have c3: "\<not> (\<exists>pre post. ''Connection is closed.''
      = pre @ CHR ''4'' # CHR ''2'' # CHR ''9'' # post)"
    using includes_str_iff [of "''Connection is closed.''" "''429''"] by simp
  have u: "[1..2] = [1, 2::int]" "[1..3] = [1, 2, 3::int]" by (simp_all add: upto_rec1)
  have last: "retryLoop Gemini False ?script (Num 4) 4 = Some ([ApiCall], Returned ''answer'')"
    by (subst retryLoop.simps) (simp add: tryBlock_def)
  have a: "withSmartRetries Gemini ?script True None =
         Some ([OnStatus (Waitlisted 2 56), ApiCall,
                OnStatus (RetryingIn 10 2 (Num 3)),
                ConsoleWarn Gemini 1 10000 ?e1, Timeout 10000,
                ApiCall,
                OnStatus (RetryingIn 10 3 (Num 3)),
                ConsoleWarn Gemini 2 10000 ?e2, Timeout 10000],
               AttemptError ?e3)"
    using withSmartRetries_backoff_and_propagation
      [where k = 3 and maxRetries = None and h = True and script = ?script and err = ?err
         and p = Gemini, OF _ _ fails]
    by (simp add: u c1 c3 newError_def tryBlock_def notify_def)
  have b: "withSmartRetries Gemini ?script False (Some (Num 4)) =
         Some ([ApiCall,
                ConsoleWarn Gemini 1 10000 ?e1, Timeout 10000,
                ApiCall,
                ConsoleWarn Gemini 2 10000 ?e2, Timeout 10000,
                ConsoleWarn Gemini 3 8000 ?e3, Timeout 8000,
                ApiCall],
               Returned ''answer'')"
    using withSmartRetries_backoff_and_propagation
      [where k = 3 and maxRetries = "Some (Num 4)" and h = False and script = ?script
         and err = ?err and p = Gemini, OF _ _ fails]
    by (simp add: u last c1 c3 newError_def tryBlock_def notify_def)
  show ?thesis using a b by (simp add: Let_def)
qed

text \<open>
  C10, as amended. With \<open>limit\<close> the value of \<^verbatim>\<open>maxRetries\<close> after the default 3:
  for a finite \<open>limit\<close> the call comes to an end having called \<^verbatim>\<open>apiCall\<close> at most
  \<open>limit\<close> times (not at all below 1, nor for \<^verbatim>\<open>NaN\<close> and \<^verbatim>\<open>-Infinity\<close>, where the
  loop body does not run and the exception after the loop is raised). When \<open>limit\<close> is an
  integer \<open>n\<close> of at least 1, the exception after the loop is never what the caller gets,
  and when every attempt fails the caller gets the error of attempt \<open>n\<close>. The same
  exception is out of reach for \<^verbatim>\<open>Infinity\<close>, where the call only returns with a
  value. When \<open>limit\<close> is below 1 or not an integer, no attempt is the last one
  (\<^verbatim>\<open>attempt === maxRetries\<close> never holds), and when every attempt made fails, the
  caller gets the exception after the loop.
\<close>

theorem withSmartRetries_attempts_bounded:
  fixes maxRetries :: "JsNumber option" and limit :: JsNumber
  defines "limit \<equiv> (case maxRetries of None \<Rightarrow> Num 3 | Some m \<Rightarrow> m)"
  shows "(\<forall>q. limit = Num q \<longrightarrow>
        (\<exists>effects outcome. withSmartRetries p script h maxRetries = Some (effects, outcome)
           \<and> of_int (int (length (filter (\<lambda>x. x = ApiCall) effects))) \<le> max 0 q))
   \<and> (limit = NaN \<or> limit = NegInfinity \<longrightarrow>
        withSmartRetries p script h maxRetries = Some ([], RetriesExhausted p limit))
   \<and> (\<forall>n. limit = Num (of_int n) \<and> 1 \<le> n \<longrightarrow>
        (\<forall>effects x m. withSmartRetries p script h maxRetries
            \<noteq> Some (effects, RetriesExhausted x m))
        \<and> ((\<forall>a. 1 \<le> a \<and> a \<le> n \<longrightarrow> snd (tryBlock h (script a)) = Inl (err a)) \<longrightarrow>
            (\<exists>effects. withSmartRetries p script h maxRetries
                = Some (effects, AttemptError (err n)))))
   \<and> (limit = PosInfinity \<longrightarrow>
        (\<forall>effects outcome. withSmartRetries p script h maxRetries = Some (effects, outcome) \<longrightarrow>
            (\<exists>v. outcome = Returned v)))
   \<and> (\<forall>q. limit = Num q \<and> (q < 1 \<or> of_int \<lfloor>q\<rfloor> \<noteq> q)
          \<and> (\<forall>a. 1 \<le> a \<and> a \<le> \<lfloor>q\<rfloor> \<longrightarrow> snd (tryBlock h (script a)) = Inl (err a)) \<longrightarrow>
        (\<exists>effects. withSmartRetries p script h maxRetries
            = Some (effects, RetriesExhausted p limit)))"
proof -
  have w: "withSmartRetries p script h maxRetries = retryLoop p h script limit 1"
    by (simp add: withSmartRetries_def limit_def)
  have bounded: "\<exists>effects outcome. withSmartRetries p script h maxRetries = Some (effects, outcome)
           \<and> of_int (int (length (filter (\<lambda>x. x = ApiCall) effects))) \<le> max 0 q"
    if "limit = Num q" for q
  proof -
    obtain effects outcome where r: "retryLoop p h script (Num q) 1 = Some (effects, outcome)"
      and c: "int (length (filter (\<lambda>x. x = ApiCall) effects)) \<le> max 0 (\<lfloor>q\<rfloor> + 1 - 1)"
      using retryLoop_finite [of p h script q 1] by blast
    have "of_int (int (length (filter (\<lambda>x. x = ApiCall) effects))) \<le> (of_int (max 0 \<lfloor>q\<rfloor>) :: rat)"
      using c by simp
    also have "\<dots> \<le> max 0 q"
      by (simp add: max_def le_floor_iff)
    finally show ?thesis using r that w by simp
  qed
  have none: "withSmartRetries p script h maxRetries = Some ([], RetriesExhausted p limit)"
    if "limit = NaN \<or> limit = NegInfinity"
    using that by (auto simp: w retryLoop_left)
  have whole: "(\<forall>effects x m. withSmartRetries p script h maxRetries
            \<noteq> Some (effects, RetriesExhausted x m))
        \<and> ((\<forall>a. 1 \<le> a \<and> a \<le> n \<longrightarrow> snd (tryBlock h (script a)) = Inl (err a)) \<longrightarrow>
            (\<exists>effects. withSmartRetries p script h maxRetries
                = Some (effects, AttemptError (err n))))"
    if n: "limit = Num (of_int n) \<and> 1 \<le> n" for n
  proof (rule conjI)
    obtain effects outcome where
      r: "retryLoop p h script (Num (of_int n)) 1 = Some (effects, outcome)"
      and ne: "of_int \<lfloor>of_int n :: rat\<rfloor> = (of_int n :: rat) \<and> 1 \<le> \<lfloor>of_int n :: rat\<rfloor>
          \<longrightarrow> (\<forall>x m. outcome \<noteq> RetriesExhausted x m)"
      using retryLoop_finite [of p h script "of_int n" 1] by blast
    have "\<forall>x m. outcome \<noteq> RetriesExhausted x m" using ne n by simp
    then show "\<forall>effects x m. withSmartRetries p script h maxRetries
            \<noteq> Some (effects, RetriesExhausted x m)"
      using r n w by simp
  next
    show "(\<forall>a. 1 \<le> a \<and> a \<le> n \<longrightarrow> snd (tryBlock h (script a)) = Inl (err a)) \<longrightarrow>
            (\<exists>effects. withSmartRetries p script h maxRetries
                = Some (effects, AttemptError (err n)))"
    proof (rule impI)
      assume "\<forall>a. 1 \<le> a \<and> a \<le> n \<longrightarrow> snd (tryBlock h (script a)) = Inl (err a)"
      then show "\<exists>effects. withSmartRetries p script h maxRetries
                = Some (effects, AttemptError (err n))"
        using retryLoop_all_failed [where k = n and m = limit and h = h and script = script
            and err = err and p = p] n
        by (simp add: w)
    qed
  qed
  have unbounded: "\<exists>v. outcome = Returned v"
    if "limit = PosInfinity" "withSmartRetries p script h maxRetries = Some (effects, outcome)"
    for effects outcome
    using retryLoop_unbounded [of p h script 1 "(effects, outcome)"] that by (simp add: w)
  have runs_out: "\<exists>effects. withSmartRetries p script h maxRetries
            = Some (effects, RetriesExhausted p limit)"
    if "limit = Num q \<and> (q < 1 \<or> of_int \<lfloor>q\<rfloor> \<noteq> q)
          \<and> (\<forall>a. 1 \<le> a \<and> a \<le> \<lfloor>q\<rfloor> \<longrightarrow> snd (tryBlock h (script a)) = Inl (err a))" for q
    using retryLoop_runs_out [of q h script err p] that by (simp add: w)
  show ?thesis
    using bounded none whole unbounded runs_out by blast
qed

theorem withSmartRetries_attempts_bounded_witness:
  "withSmartRetries Gemini (alwaysThrows (newError ''fetch failed'')) True None =
     Some ([ApiCall, OnStatus (RetryingIn 2 2 (Num 3)),
            ConsoleWarn Gemini 1 2000 (newError ''fetch failed''), Timeout 2000,
            ApiCall, OnStatus (RetryingIn 4 3 (Num 3)),
            ConsoleWarn Gemini 2 4000 (newError ''fetch failed''), Timeout 4000,
            ApiCall],
           AttemptError (newError ''fetch failed''))
   \<and> withSmartRetries Gemini (alwaysThrows (newError ''fetch failed'')) False (Some (Num (5 / 2))) =
     Some ([ApiCall, ConsoleWarn Gemini 1 2000 (newError ''fetch failed''), Timeout 2000,
            ApiCall, ConsoleWarn Gemini 2 4000 (newError ''fetch failed''), Timeout 4000],
           RetriesExhausted Gemini (Num (5 / 2)))
   \<and> withSmartRetries Gemini (alwaysThrows (newError ''fetch failed'')) True (Some NaN) =
     Some ([], RetriesExhausted Gemini NaN)"
proof -
  let ?e = "newError ''fetch failed''"
  note t = withSmartRetries_attempts_bounded
    [where p = Gemini and script = "alwaysThrows ?e" and err = "\<lambda>a. ?e"]
  have fl: "\<lfloor>5 / 2 :: rat\<rfloor> = 2" by (simp add: floor_eq_iff)
  have a: "\<exists>effects. withSmartRetries Gemini (alwaysThrows ?e) True None
      = Some (effects, AttemptError ?e)"
    using t [where maxRetries = None and h = True]
    by (simp add: tryBlock_def alwaysThrows_def)
  have a': "map_option fst (withSmartRetries Gemini (alwaysThrows ?e) True None) =
     Some [ApiCall, OnStatus (RetryingIn 2 2 (Num 3)), ConsoleWarn Gemini 1 2000 ?e, Timeout 2000,
            ApiCall, OnStatus (RetryingIn 4 3 (Num 3)), ConsoleWarn Gemini 2 4000 ?e, Timeout 4000,
            ApiCall]"
    by code_simp
  have b: "\<exists>effects. withSmartRetries Gemini (alwaysThrows ?e) False (Some (Num (5 / 2)))
      = Some (effects, RetriesExhausted Gemini (Num (5 / 2)))"
  proof -
    have frac: "(5 / 2 :: rat) < 1 \<or> of_int \<lfloor>5 / 2 :: rat\<rfloor> \<noteq> (5 / 2 :: rat)"
      by (simp add: fl)
    have fails: "\<forall>a. 1 \<le> a \<and> a \<le> \<lfloor>5 / 2 :: rat\<rfloor> \<longrightarrow>
        snd (tryBlock False (alwaysThrows ?e a)) = Inl ?e"
      by (simp add: tryBlock_def alwaysThrows_def)
    show ?thesis
      using t [where maxRetries = "Some (Num (5 / 2))" and h = False] frac fails
      unfolding option.case by blast
  qed
  have b': "map_option fst (withSmartRetries Gemini (alwaysThrows ?e) False (Some (Num (5 / 2)))) =
     Some [ApiCall, ConsoleWarn Gemini 1 2000 ?e, Timeout 2000,
            ApiCall, ConsoleWarn Gemini 2 4000 ?e, Timeout 4000]"
    by code_simp
  have c: "withSmartRetries Gemini (alwaysThrows ?e) True (Some NaN) =
     Some ([], RetriesExhausted Gemini NaN)"
    using t [where maxRetries = "Some NaN" and h = True] by simp
  show ?thesis using a a' b b' c by auto
qed

text \<open>
  C10 as stated fails: with \<^verbatim>\<open>maxRetries = 0\<close> the loop body never runs, and with
  \<^verbatim>\<open>maxRetries = 1.5\<close> attempt 1 fails, is not the last (\<^verbatim>\<open>1 === 1.5\<close> is false),
  is followed by the warning and the sleep, and attempt 2 is not made; in both runs the
  caller gets the exception after the loop.
\<close>

theorem withSmartRetries_trailing_throw_reached:
  "withSmartRetries Groq (alwaysThrows (newError ''fetch failed'')) False (Some (Num 0))
     = Some ([], RetriesExhausted Groq (Num 0))
   \<and> withSmartRetries Groq (alwaysThrows (newError ''fetch failed'')) False (Some (Num (3 / 2)))
     = Some ([ApiCall, ConsoleWarn Groq 1 2000 (newError ''fetch failed''), Timeout 2000],
             RetriesExhausted Groq (Num (3 / 2)))"
  by code_simp

subsection \<open>Symbol extraction\<close>

text \<open>
  C7. On the four-line source text \<^verbatim>\<open>function foo() {\n  return 1;\n}\n\<close>,
  \<^verbatim>\<open>extractSymbols\<close> with the language id \<^verbatim>\<open>typescript\<close> or \<^verbatim>\<open>javascript\<close>
  returns exactly one symbol: name \<^verbatim>\<open>foo\<close>, kind function, start line 1, end line 3
  (with indent 0 and the signature \<^verbatim>\<open>function foo()\<close>).
\<close>

theorem extractSymbols_single_function:
  "extractSymbols
     (''function foo() {'' @ [CHR 0x0A] @ ''  return 1;'' @ [CHR 0x0A] @ ''}'' @ [CHR 0x0A])
     ''typescript''
   = [\<lparr>name = ''foo'', kind = FunctionKind, startLine = 1, endLine = 3, indent = 0,
      signature = ''function foo()''\<rparr>]
   \<and> extractSymbols
     (''function foo() {'' @ [CHR 0x0A] @ ''  return 1;'' @ [CHR 0x0A] @ ''}'' @ [CHR 0x0A])
     ''javascript''
   = [\<lparr>name = ''foo'', kind = FunctionKind, startLine = 1, endLine = 3, indent = 0,
      signature = ''function foo()''\<rparr>]"
  by code_simp

subsection \<open>The drive loop\<close>

lemma currentNode_addMessage [simp]: "currentNode (addMessage r c n s) = currentNode s"
  by (simp add: addMessage_def updateState_def noUpdates_def)

lemma currentNode_mergeResult [simp]: "currentNode (mergeResult s r) = nextNode r"
  by (simp add: mergeResult_def updateState_def)

lemma announce_currentNode:
  "announce translate r s = Inr s' \<Longrightarrow> currentNode s' = currentNode s"
  by (auto simp: announce_def Let_def split: option.splits if_splits sum.splits)

lemma announce_returns:
  assumes "\<forall>m l. \<exists>t. translate m l = Inr t"
  shows "\<exists>s'. announce translate r s = Inr s'"
proof (cases "presentMessage (userMessage r)")
  case None
  then show ?thesis by (simp add: announce_def Let_def)
next
  case (Some m)
  obtain t where "translate m (inputLanguage s) = Inr t"
    using assms by blast
  then show ?thesis using Some by (simp add: announce_def Let_def)
qed


lemma driveLoop_reaches_cap:
  assumes inv: "\<And>s. I s \<Longrightarrow> currentNode s \<noteq> Idle \<and> currentNode s \<noteq> Error"
    and step: "\<And>s. I s \<Longrightarrow> \<exists>r s'. executors (currentNode s) s = Inr r
                 \<and> announce translate r (mergeResult s r) = Inr s' \<and> I s'"
    and na: "\<And>n. \<not> aborted n"
  shows "I s \<Longrightarrow> n \<le> maxIterations \<Longrightarrow>
     \<exists>s'. driveLoop translate executors aborted n s = (maxIterations, s', None) \<and> I s'"
proof (induction "maxIterations - n" arbitrary: n s)
  case 0
  then have "n = maxIterations" by simp
  then show ?case using "0.prems" by (subst driveLoop.simps) simp
next
  case (Suc k)
  then have lt: "n < maxIterations" by simp
  obtain r s' where r: "executors (currentNode s) s = Inr r"
    and a: "announce translate r (mergeResult s r) = Inr s'" and i: "I s'"
    using step [OF Suc.prems(1)] by blast
  have k: "k = maxIterations - (n + 1)" using Suc.hyps(2) by simp
  have "\<exists>s''. driveLoop translate executors aborted (n + 1) s' = (maxIterations, s'', None) \<and> I s''"
    using Suc.hyps(1) [OF k i] lt by simp
  moreover have "driveLoop translate executors aborted n s = driveLoop translate executors aborted (n + 1) s'"
    using inv [OF Suc.prems(1)] lt na r a by (subst driveLoop.simps) simp
  ultimately show ?case by simp
qed




subsection \<open>A failed review and the editor\<close>

lemma reviewAll_returns:
  "\<forall>d \<in> set ds. \<exists>r. reviewCode co d = Inr r \<Longrightarrow>
   reviewAll co ds acc n =
     Inr (acc @ map (\<lambda>d. projr (reviewCode co d)) ds,
          n + sum_list (map (\<lambda>d. estimateTokens (diff d) + 500) ds))"
proof (induction ds arbitrary: acc n)
  case Nil
  then show ?case by simp
next
  case (Cons d ds)
  obtain r where r: "reviewCode co d = Inr r" using Cons.prems by auto
  have rest: "\<forall>d \<in> set ds. \<exists>r. reviewCode co d = Inr r" using Cons.prems by simp
  show ?case
    using r by (simp add: Cons.IH [OF rest] algebra_simps)
qed

lemma reflection_rejects:
  assumes "\<forall>d \<in> set (pendingDiffs s). \<exists>r. reviewCode co d = Inr r"
    and "\<exists>d \<in> set (pendingDiffs s). \<exists>r. reviewCode co d = Inr r \<and> \<not> valid r"
  shows "executeReflectionNode co s =
     \<lparr>success = False, nextNode = Editing,
      stateUpdates = noUpdates
        \<lparr>u_error := Some (Some (reviewFailureText
             (map (\<lambda>d. projr (reviewCode co d)) (pendingDiffs s)))),
         u_tokensUsed := Some (tokensUsed s
             + sum_list (map (\<lambda>d. estimateTokens (diff d) + 500) (pendingDiffs s)))\<rparr>,
      userMessage = Some ReviewFoundIssues, res_error = None\<rparr>"
proof -
  have ne: "pendingDiffs s \<noteq> []" using assms(2) by auto
  obtain d r where d: "d \<in> set (pendingDiffs s)" "reviewCode co d = Inr r" "\<not> valid r"
    using assms(2) by blast
  then have "\<not> valid (projr (reviewCode co d))" by simp
  then have bad: "\<not> list_all valid (map (\<lambda>d. projr (reviewCode co d)) (pendingDiffs s))"
    using d(1) by (auto simp: list_all_iff)
  show ?thesis
    using ne bad reviewAll_returns [OF assms(1), of "[]" 0]
    by (simp add: executeReflectionNode_def)
qed

lemma editor_skips_finished_plan:
  assumes "plan s = None \<or> (\<exists>p. plan s = Some p \<and> length (steps p) \<le> currentStepIndex s)"
  shows "executeCodeEditorNode co s =
     \<lparr>success = True, nextNode = Reflection, stateUpdates = noUpdates,
      userMessage = None, res_error = None\<rparr>"
  using assms by (auto simp: executeCodeEditorNode_def)

lemma addMessage_keeps:
  "plan (addMessage r c n s) = plan s"
  "currentStepIndex (addMessage r c n s) = currentStepIndex s"
  "pendingDiffs (addMessage r c n s) = pendingDiffs s"
  "inputLanguage (addMessage r c n s) = inputLanguage s"
  by (simp_all add: addMessage_def updateState_def noUpdates_def)

lemma announce_keeps:
  assumes "announce translate r s = Inr s'"
  shows "plan s' = plan s \<and> currentStepIndex s' = currentStepIndex s
         \<and> pendingDiffs s' = pendingDiffs s"
  using assms
  by (auto simp: announce_def Let_def addMessage_keeps split: option.splits if_splits sum.splits)

lemma mergeResult_keeps:
  assumes "u_plan (stateUpdates r) = None" "u_currentStepIndex (stateUpdates r) = None"
    "u_pendingDiffs (stateUpdates r) = None"
  shows "plan (mergeResult s r) = plan s \<and> currentStepIndex (mergeResult s r) = currentStepIndex s
         \<and> pendingDiffs (mergeResult s r) = pendingDiffs s"
  using assms by (simp add: mergeResult_def updateState_def)

lemma mapAt_length [simp]: "length (mapAt i f xs) = length xs"
  by (simp add: mapAt_def)

lemma editor_enters_reflection_after_last_step:
  assumes "nextNode (executeCodeEditorNode co s) = Reflection"
  shows "plan (mergeResult s (executeCodeEditorNode co s)) = None
     \<or> (\<exists>p. plan (mergeResult s (executeCodeEditorNode co s)) = Some p
           \<and> length (steps p) \<le> currentStepIndex (mergeResult s (executeCodeEditorNode co s)))"
proof (cases "plan s")
  case None
  then show ?thesis
    by (simp add: executeCodeEditorNode_def mergeResult_def updateState_def noUpdates_def)
next
  case (Some p)
  show ?thesis
  proof (cases "length (steps p) \<le> currentStepIndex s")
    case True
    then show ?thesis using Some
      by (simp add: executeCodeEditorNode_def mergeResult_def updateState_def noUpdates_def)
  next
    case False
    show ?thesis
    proof (cases "produceDiff co s (steps p ! currentStepIndex s)")
      case (Inl e)
      then show ?thesis using assms Some False
        by (simp add: executeCodeEditorNode_def failedNode_def Let_def)
    next
      case (Inr ds)
      obtain d spent where ds: "ds = (d, spent)" by (cases ds)
      have "nextAfterStep p (currentStepIndex s + 1) = Reflection"
        using assms Some False Inr ds by (simp add: executeCodeEditorNode_def Let_def)
      then have "length (steps p) \<le> currentStepIndex s + 1"
        by (auto simp: nextAfterStep_def split: if_splits)
      then show ?thesis using Some False Inr ds
        by (simp add: executeCodeEditorNode_def Let_def mergeResult_def updateState_def noUpdates_def)
    qed
  qed
qed


lemma retrieval_enters_reflection_after_last_step:
  assumes "nextNode (executeRetrievalNode co s) = Reflection"
  shows "\<exists>p. plan (mergeResult s (executeRetrievalNode co s)) = Some p
           \<and> length (steps p) \<le> currentStepIndex (mergeResult s (executeRetrievalNode co s))"
proof (cases "plan s")
  case None
  then show ?thesis using assms by (simp add: executeRetrievalNode_def)
next
  case (Some p)
  let ?q = "if currentStepIndex s < length (steps p)
                     \<and> description (steps p ! currentStepIndex s) \<noteq> ''''
                  then description (steps p ! currentStepIndex s)
                  else translatedText s"
  show ?thesis
  proof (cases "searchCodebase co ?q (files s)")
    case (Inl e)
    then show ?thesis using assms Some
      by (simp add: executeRetrievalNode_def failedNode_def Let_def)
  next
    case (Inr fs)
    have "nextAfterStep p (currentStepIndex s + 1) = Reflection"
      using assms Some Inr by (simp add: executeRetrievalNode_def Let_def)
    then have "length (steps p) \<le> currentStepIndex s + 1"
      by (auto simp: nextAfterStep_def split: if_splits)
    then show ?thesis using Some Inr
      by (simp add: executeRetrievalNode_def Let_def mergeResult_def updateState_def noUpdates_def)
  qed
qed

text \<open>
  C1. The editing and retrieval handlers route to reflection only with the plan cursor
  at or past the end of the plan (\<open>editor_enters_reflection_after_last_step\<close>,
  \<open>retrieval_enters_reflection_after_last_step\<close>). From such a state, with reviews that
  all return and of which at least one reports \<^verbatim>\<open>valid = false\<close>: the reflection
  result has \<^verbatim>\<open>nextNode = editing\<close>, \<^verbatim>\<open>success = false\<close> and no
  \<^verbatim>\<open>currentStepIndex\<close> among its state updates; the editing handler is invoked next,
  on the unchanged cursor, and returns at once with \<^verbatim>\<open>nextNode = reflection\<close> and
  empty state updates, so no plan step is processed again and no diff is regenerated;
  and the loop alternates between the two handlers until its twentieth pass, the plan,
  the cursor and the pending diffs being at the end what they were at the start.
\<close>

theorem reflection_retry_makes_no_progress:
  assumes pl: "plan s = Some p" "length (steps p) \<le> currentStepIndex s"
    and node: "currentNode s = Reflection"
    and rev: "\<forall>d \<in> set (pendingDiffs s). \<exists>r. reviewCode co d = Inr r"
    and bad: "\<exists>d \<in> set (pendingDiffs s). \<exists>r. reviewCode co d = Inr r \<and> \<not> valid r"
    and tr: "\<forall>m l. \<exists>t. translateChatMessage co m l = Inr t"
    and na: "\<forall>n. \<not> aborted n"
  shows "nextNode (executeReflectionNode co s) = Editing
     \<and> \<not> success (executeReflectionNode co s)
     \<and> u_currentStepIndex (stateUpdates (executeReflectionNode co s)) = None
     \<and> (\<forall>s'. announce (translateChatMessage co) (executeReflectionNode co s)
                (mergeResult s (executeReflectionNode co s)) = Inr s' \<longrightarrow>
            currentNode s' = Editing \<and> currentStepIndex s' = currentStepIndex s
            \<and> executeCodeEditorNode co s' =
                \<lparr>success = True, nextNode = Reflection, stateUpdates = noUpdates,
                 userMessage = None, res_error = None\<rparr>)
     \<and> (\<exists>final. driveLoop (translateChatMessage co) (\<lambda>node st. Inr (nodeExecutors co node st))
                  aborted 0 s = (20, final, None)
            \<and> plan final = Some p \<and> currentStepIndex final = currentStepIndex s
            \<and> pendingDiffs final = pendingDiffs s)"
proof -
  let ?tr = "translateChatMessage co"
  let ?ex = "\<lambda>node st. Inr (nodeExecutors co node st) :: thrown + NodeExecutionResult"
  let ?I = "\<lambda>st. plan st = Some p \<and> currentStepIndex st = currentStepIndex s
      \<and> pendingDiffs st = pendingDiffs s
      \<and> (currentNode st = Reflection \<or> currentNode st = Editing)"
  have refl: "executeReflectionNode co st =
     \<lparr>success = False, nextNode = Editing,
      stateUpdates = noUpdates
        \<lparr>u_error := Some (Some (reviewFailureText
             (map (\<lambda>d. projr (reviewCode co d)) (pendingDiffs st)))),
         u_tokensUsed := Some (tokensUsed st
             + sum_list (map (\<lambda>d. estimateTokens (diff d) + 500) (pendingDiffs st)))\<rparr>,
      userMessage = Some ReviewFoundIssues, res_error = None\<rparr>"
    if "pendingDiffs st = pendingDiffs s" for st
    using reflection_rejects [of st co] rev bad that by simp
  have refl_upd: "u_plan (stateUpdates (executeReflectionNode co st)) = None
      \<and> u_currentStepIndex (stateUpdates (executeReflectionNode co st)) = None
      \<and> u_pendingDiffs (stateUpdates (executeReflectionNode co st)) = None
      \<and> nextNode (executeReflectionNode co st) = Editing
      \<and> \<not> success (executeReflectionNode co st)"
    if "pendingDiffs st = pendingDiffs s" for st
    by (simp add: refl [OF that] noUpdates_def)
  have edit: "executeCodeEditorNode co st =
     \<lparr>success = True, nextNode = Reflection, stateUpdates = noUpdates,
      userMessage = None, res_error = None\<rparr>"
    if "plan st = Some p" "currentStepIndex st = currentStepIndex s" for st
    using editor_skips_finished_plan [of st co] that pl(2) by simp
  have step: "\<exists>r st'. ?ex (currentNode st) st = Inr r
        \<and> announce ?tr r (mergeResult st r) = Inr st' \<and> ?I st'" if Ist: "?I st" for st
  proof -
    from Ist consider "currentNode st = Reflection" | "currentNode st = Editing" by blast
    then show ?thesis
    proof cases
      case 1
      let ?r = "executeReflectionNode co st"
      have u: "u_plan (stateUpdates ?r) = None" "u_currentStepIndex (stateUpdates ?r) = None"
        "u_pendingDiffs (stateUpdates ?r) = None" "nextNode ?r = Editing"
        using refl_upd [of st] Ist by simp_all
      obtain st' where a: "announce ?tr ?r (mergeResult st ?r) = Inr st'"
        using announce_returns [OF tr] by blast
      have "currentNode st' = Editing"
        using announce_currentNode [OF a] u(4) by simp
      moreover have "plan st' = plan st \<and> currentStepIndex st' = currentStepIndex st
          \<and> pendingDiffs st' = pendingDiffs st"
        using announce_keeps [OF a] mergeResult_keeps [OF u(1) u(2) u(3), of st] by simp
      ultimately have "?I st'" using Ist by simp
      then show ?thesis using a 1 by auto
    next
      case 2
      let ?r = "executeCodeEditorNode co st"
      have e: "?r = \<lparr>success = True, nextNode = Reflection, stateUpdates = noUpdates,
          userMessage = None, res_error = None\<rparr>"
        using edit [of st] Ist by simp
      have u: "u_plan (stateUpdates ?r) = None" "u_currentStepIndex (stateUpdates ?r) = None"
        "u_pendingDiffs (stateUpdates ?r) = None" "nextNode ?r = Reflection"
        by (simp_all add: e noUpdates_def)
      obtain st' where a: "announce ?tr ?r (mergeResult st ?r) = Inr st'"
        using announce_returns [OF tr] by blast
      have "currentNode st' = Reflection"
        using announce_currentNode [OF a] u(4) by simp
      moreover have "plan st' = plan st \<and> currentStepIndex st' = currentStepIndex st
          \<and> pendingDiffs st' = pendingDiffs st"
        using announce_keeps [OF a] mergeResult_keeps [OF u(1) u(2) u(3), of st] by simp
      ultimately have "?I st'" using Ist by simp
      then show ?thesis using a 2 by auto
    qed
  qed
  have inv: "currentNode st \<noteq> Idle \<and> currentNode st \<noteq> Error" if "?I st" for st
    using that by auto
  have start: "?I s" using pl node by simp
  have loop: "\<exists>final. driveLoop ?tr ?ex aborted 0 s = (maxIterations, final, None) \<and> ?I final"
    using driveLoop_reaches_cap [where I = ?I and translate = ?tr and executors = ?ex
        and aborted = aborted and s = s and n = 0] inv step na start
    by blast
  have first: "\<forall>s'. announce ?tr (executeReflectionNode co s)
                (mergeResult s (executeReflectionNode co s)) = Inr s' \<longrightarrow>
            currentNode s' = Editing \<and> currentStepIndex s' = currentStepIndex s
            \<and> executeCodeEditorNode co s' =
                \<lparr>success = True, nextNode = Reflection, stateUpdates = noUpdates,
                 userMessage = None, res_error = None\<rparr>"
  proof (intro allI impI)
    fix s' assume a: "announce ?tr (executeReflectionNode co s)
                (mergeResult s (executeReflectionNode co s)) = Inr s'"
    let ?r = "executeReflectionNode co s"
    have u: "u_plan (stateUpdates ?r) = None" "u_currentStepIndex (stateUpdates ?r) = None"
      "u_pendingDiffs (stateUpdates ?r) = None" "nextNode ?r = Editing"
      using refl_upd [of s] by simp_all
    have k: "plan s' = plan s \<and> currentStepIndex s' = currentStepIndex s"
      using announce_keeps [OF a] mergeResult_keeps [OF u(1) u(2) u(3), of s] by simp
    have "currentNode s' = Editing" using announce_currentNode [OF a] u(4) by simp
    then show "currentNode s' = Editing \<and> currentStepIndex s' = currentStepIndex s
            \<and> executeCodeEditorNode co s' =
                \<lparr>success = True, nextNode = Reflection, stateUpdates = noUpdates,
                 userMessage = None, res_error = None\<rparr>"
      using k edit [of s'] pl(1) by simp
  qed
  have loop': "\<exists>final. driveLoop ?tr ?ex aborted 0 s = (20, final, None)
            \<and> plan final = Some p \<and> currentStepIndex final = currentStepIndex s
            \<and> pendingDiffs final = pendingDiffs s"
    using loop unfolding maxIterations_def by blast
  show ?thesis
    using refl_upd [of s] first loop' by blast
qed

theorem reflection_retry_makes_no_progress_witness:
  "let co = \<lparr>Diff_applyPatch = (\<lambda>oc pt. Inr NotApplicable),
         Diff_createTwoFilesPatch = (\<lambda>a b old new context. new),
         reviewCode = (\<lambda>d. Inr \<lparr>valid = False,
            issues = [\<lparr>severity = SeverityError, issue_message = ''bucket is public''\<rparr>],
            reviewScore = 40\<rparr>),
         generateSamjhao = (\<lambda>st. Inr ''notes''),
         generateDeploymentDocs = (\<lambda>st. Inr ''docs''),
         generateNewFile = (\<lambda>f step. Inr ''resource {}''),
         generateCodeEdit = (\<lambda>f c step l. Inl (newError ''no edit'')),
         searchCodebase = (\<lambda>q fs. Inr []),
         translateChatMessage = (\<lambda>m l. Inr ''translated''),
         executeIngestionNode = (\<lambda>st. failedNode (newError ''no ingestion'')),
         executePlannerNode = (\<lambda>st. failedNode (newError ''no planner''))\<rparr>;
       d = \<lparr>filePath = ''main.tf'', originalContent = [], patchedContent = ''resource {}'',
            diff = ''+resource {}'', targetSymbol = None, lineRange = (1, 1)\<rparr>;
       p = \<lparr>goal = ''create a bucket'',
            steps = [\<lparr>step_id = ''1'', action = Create, step_file = ''main.tf'', symbol = None,
                      description = ''create the bucket'', rationale = None, completed = True,
                      step_diff = Some d\<rparr>]\<rparr>;
       s = createInitialState\<lparr>currentNode := Reflection, plan := Some p,
             currentStepIndex := 1, pendingDiffs := [d]\<rparr>
   in nextNode (executeReflectionNode co s) = Editing
      \<and> u_currentStepIndex (stateUpdates (executeReflectionNode co s)) = None
      \<and> (\<exists>final. driveLoop (translateChatMessage co)
                  (\<lambda>node st. Inr (nodeExecutors co node st)) (\<lambda>n. False) 0 s = (20, final, None)
            \<and> plan final = Some p \<and> currentStepIndex final = 1 \<and> pendingDiffs final = [d])"
proof -
  let ?co = "\<lparr>Diff_applyPatch = (\<lambda>oc pt. Inr NotApplicable),
         Diff_createTwoFilesPatch = (\<lambda>a b old new context. new),
         reviewCode = (\<lambda>d. Inr \<lparr>valid = False,
            issues = [\<lparr>severity = SeverityError, issue_message = ''bucket is public''\<rparr>],
            reviewScore = 40\<rparr>),
         generateSamjhao = (\<lambda>st. Inr ''notes''),
         generateDeploymentDocs = (\<lambda>st. Inr ''docs''),
         generateNewFile = (\<lambda>f step. Inr ''resource {}''),
         generateCodeEdit = (\<lambda>f c step l. Inl (newError ''no edit'')),
         searchCodebase = (\<lambda>q fs. Inr []),
         translateChatMessage = (\<lambda>m l. Inr ''translated''),
         executeIngestionNode = (\<lambda>st. failedNode (newError ''no ingestion'')),
         executePlannerNode = (\<lambda>st. failedNode (newError ''no planner''))\<rparr>"
  let ?d = "\<lparr>filePath = ''main.tf'', originalContent = [], patchedContent = ''resource {}'',
            diff = ''+resource {}'', targetSymbol = None, lineRange = (1, 1)\<rparr>"
  let ?p = "\<lparr>goal = ''create a bucket'',
            steps = [\<lparr>step_id = ''1'', action = Create, step_file = ''main.tf'', symbol = None,
                      description = ''create the bucket'', rationale = None, completed = True,
                      step_diff = Some ?d\<rparr>]\<rparr>"
  let ?s = "createInitialState\<lparr>currentNode := Reflection, plan := Some ?p,
             currentStepIndex := 1, pendingDiffs := [?d]\<rparr>"
  have "nextNode (executeReflectionNode ?co ?s) = Editing
      \<and> u_currentStepIndex (stateUpdates (executeReflectionNode ?co ?s)) = None
      \<and> (\<exists>final. driveLoop (translateChatMessage ?co)
                  (\<lambda>node st. Inr (nodeExecutors ?co node st)) (\<lambda>n. False) 0 ?s = (20, final, None)
            \<and> plan final = Some ?p \<and> currentStepIndex final = currentStepIndex ?s
            \<and> pendingDiffs final = pendingDiffs ?s)"
    using reflection_retry_makes_no_progress [of ?s ?p ?co "\<lambda>n. False"]
    by simp
  then show ?thesis by (simp add: Let_def)
qed

end
